theory Spec2Isabelle
  imports Main "HOL-Library.Sublist"
begin

section \<open>Multipart upload: the data of the API client\<close>

text \<open>
  This theory embeds the upload client (the API client with its multipart uploader), the
  job wrappers of \<^verbatim>\<open>app/lib/api.ts\<close>, the polling loop and the merge paths of the front
  end, and proves what they do. A network request is an entry in a log with the time it
  started and the time it settled, so that the number and the order of the requests and
  how they overlap can be read off the log.

  The records follow the interfaces of the API client. JavaScript numbers that hold
  sizes, part numbers and the concurrency limit are integers here; a time in
  milliseconds is a natural number.
\<close>

record part_info =
  part_number :: int
  url :: string
  psize :: int

record upload_metadata =
  chunk_size :: int
  max_concurrent :: int

record multipart_upload_info =
  upload_id :: string
  key :: string
  presigned_urls :: "part_info list"
  complete_url :: string
  abort_url :: string
  metadata :: "upload_metadata option"

record js_file =
  file_name :: string
  file_type :: string
  file_size :: int

text \<open>\<^verbatim>\<open>uploadInfo.metadata?.chunk_size || 64 * 1024 * 1024\<close>: a missing metadata object and a
  chunk size of zero both give the default of 64 MB.\<close>

definition chunkSize :: "multipart_upload_info \<Rightarrow> int" where
  "chunkSize info =
     (case metadata info of
        None \<Rightarrow> 64 * 1024 * 1024
      | Some md \<Rightarrow> if chunk_size md = 0 then 64 * 1024 * 1024 else chunk_size md)"

text \<open>\<^verbatim>\<open>uploadInfo.metadata?.max_concurrent || 3\<close>.\<close>

definition maxConcurrent :: "multipart_upload_info \<Rightarrow> int" where
  "maxConcurrent info =
     (case metadata info of
        None \<Rightarrow> 3
      | Some md \<Rightarrow> if max_concurrent md = 0 then 3 else max_concurrent md)"

text \<open>\<^verbatim>\<open>Blob.slice(start, stop)\<close> on a blob of \<open>sz\<close> bytes: a negative bound counts from the
  end, both bounds are clamped to the blob, and a stop before the start gives the empty
  blob. The result is the byte range that the slice holds.\<close>

definition blob_slice :: "int \<Rightarrow> int \<Rightarrow> int \<Rightarrow> int \<times> int" where
  "blob_slice sz start stop =
     (let relativeStart = (if start < 0 then max (sz + start) 0 else min start sz);
          relativeEnd = (if stop < 0 then max (sz + stop) 0 else min stop sz);
          span = max (relativeEnd - relativeStart) 0
      in (relativeStart, relativeStart + span))"

text \<open>The first three lines of \<^verbatim>\<open>uploadPart\<close>: the byte range of the file that is sent for
  one presigned part.\<close>

definition uploadPart_chunk :: "js_file \<Rightarrow> int \<Rightarrow> part_info \<Rightarrow> int \<times> int" where
  "uploadPart_chunk f cs partInfo =
     (let start = (part_number partInfo - 1) * cs;
          stop = min (start + psize partInfo) (file_size f)
      in blob_slice (file_size f) start stop)"

definition chunk_bytes :: "int \<times> int \<Rightarrow> int" where
  "chunk_bytes r = snd r - fst r"

text \<open>The part list of the initiate reply is computed by the backend, which is not among
  the sources. The three definitions that follow model it from the spec, which gives
  1-based contiguous part numbers, parts of the chunk size, and a last part of
  \<open>fileSize - (numParts - 1) * chunkSize\<close> bytes (5 MB, 5 MB, 2 MB for 12 MB in chunks of
  5 MB). The presigned URL of a part is left open (\<open>sign\<close>).\<close>

text \<open>Modelled from the spec: the number of parts that the initiate handler of the
  backend (missing from the sources) plans for a file, the file size divided by the chunk
  size and rounded up.\<close>

definition numParts :: "int \<Rightarrow> int \<Rightarrow> int" where
  "numParts fileSize cs = (fileSize + cs - 1) div cs"

text \<open>Modelled from the spec: the descriptor that the initiate handler of the backend
  (missing from the sources) returns for part \<open>i\<close>.\<close>

definition presigned_part :: "(int \<Rightarrow> string) \<Rightarrow> int \<Rightarrow> int \<Rightarrow> int \<Rightarrow> part_info" where
  "presigned_part sign fileSize cs i =
     \<lparr>part_number = i, url = sign i,
      psize = (if i < numParts fileSize cs then cs
               else fileSize - (numParts fileSize cs - 1) * cs)\<rparr>"

text \<open>Modelled from the spec: the \<^verbatim>\<open>presigned_urls\<close> of the initiate reply, which the backend
  (missing from the sources) computes: the descriptors of the parts 1 to \<open>numParts\<close>, in
  order.\<close>

definition presigned_parts :: "(int \<Rightarrow> string) \<Rightarrow> int \<Rightarrow> int \<Rightarrow> part_info list" where
  "presigned_parts sign fileSize cs =
     map (presigned_part sign fileSize cs) [1..numParts fileSize cs]"

text \<open>A list of byte ranges covers \<open>[lo, hi)\<close> exactly once: each range is not empty and
  starts where the one before it stops.\<close>

fun tiles :: "int \<Rightarrow> (int \<times> int) list \<Rightarrow> int \<Rightarrow> bool" where
  "tiles lo [] hi = (lo = hi)"
| "tiles lo ((s, e) # rs) hi = (s = lo \<and> lo < e \<and> tiles e rs hi)"


section \<open>The network as the client sees it\<close>

text \<open>A parsed JSON value. An object lists its properties, each name once; the numbers
  that the client reads and writes are integers.\<close>

datatype json =
  JNull | JBool bool | JNum int | JStr string | JArr "json list" | JObj "(string \<times> json) list"

datatype req_body = JsonBody json | BlobBody "int \<times> int"

record http_request =
  req_method :: string
  req_url :: string
  req_headers :: "(string \<times> string) list"
  req_body :: "req_body option"
  req_cache :: "string option"

text \<open>What the client reads of a response: the status line, the \<^verbatim>\<open>ETag\<close> header, the body
  as text, the result of \<^verbatim>\<open>JSON.parse\<close> on that text (\<open>None\<close> when it throws) and the
  result of \<^verbatim>\<open>response.json()\<close> at the type the caller declares (\<open>None\<close> when it
  rejects).\<close>

record 'a http_response =
  status :: nat
  statusText :: string
  etag :: "string option"
  body_text :: string
  body_parse :: "json option"
  body_json :: "'a option"

definition ok :: "'a http_response \<Rightarrow> bool" where
  "ok r = (200 \<le> status r \<and> status r \<le> 299)"

text \<open>\<^verbatim>\<open>fetch\<close> rejects on a network failure and resolves with a response otherwise, after
  some latency. A server answers a request knowing the requests made before it.\<close>

datatype 'a fetch_outcome = Rejected string | Responded "'a http_response"

record 'a reply =
  latency :: nat
  outcome :: "'a fetch_outcome"

type_synonym 'a server = "http_request list \<Rightarrow> http_request \<Rightarrow> 'a reply"

record flight =
  request_of :: http_request
  started :: nat
  settled :: nat

record net =
  flights :: "flight list"
  now :: nat

definition calls :: "net \<Rightarrow> http_request list" where
  "calls n = map request_of (flights n)"

text \<open>\<^verbatim>\<open>await fetch(...)\<close>: the request is logged with the time it was issued and the time
  it settles, and the caller resumes when it settles.\<close>

definition fetch :: "'a server \<Rightarrow> http_request \<Rightarrow> net \<Rightarrow> 'a fetch_outcome \<times> net" where
  "fetch srv req n =
     (let r = srv (calls n) req; t = now n + latency r
      in (outcome r,
          \<lparr>flights = flights n @ [\<lparr>request_of = req, started = now n, settled = t\<rparr>],
           now = t\<rparr>))"

datatype error_message = FromDetail json | FromText string | FromStatus nat

datatype error =
  ApiError error_message
  | FetchError string
  | JsonError
  | TypeError
  | RangeError
  | PartUploadFailed int string
  | NoETag int
  | TusEndpointFailed

text \<open>JavaScript's truthiness of a parsed JSON value.\<close>

fun truthy :: "json \<Rightarrow> bool" where
  "truthy JNull = False"
| "truthy (JBool b) = b"
| "truthy (JNum i) = (i \<noteq> 0)"
| "truthy (JStr s) = (s \<noteq> [])"
| "truthy (JArr xs) = True"
| "truthy (JObj kvs) = True"

text \<open>The message of the error that \<^verbatim>\<open>request\<close> throws for a response that is not ok:
  \<^verbatim>\<open>errorJson.detail || errorText\<close> when the text parses (reading \<^verbatim>\<open>detail\<close> of
  \<^verbatim>\<open>null\<close> throws inside the \<^verbatim>\<open>try\<close>), and \<^verbatim>\<open>errorText || `HTTP ${status}`\<close> in the
  \<^verbatim>\<open>catch\<close>.\<close>

definition errorMessage :: "'a http_response \<Rightarrow> error_message" where
  "errorMessage r =
     (let caught = (if body_text r = [] then FromStatus (status r) else FromText (body_text r))
      in case body_parse r of
           None \<Rightarrow> caught
         | Some JNull \<Rightarrow> caught
         | Some (JObj kvs) \<Rightarrow>
             (case map_of kvs ''detail'' of
                None \<Rightarrow> FromText (body_text r)
              | Some d \<Rightarrow> if truthy d then FromDetail d else FromText (body_text r))
         | Some _ \<Rightarrow> FromText (body_text r))"

text \<open>\<^verbatim>\<open>{} as T\<close> is what \<^verbatim>\<open>request\<close> returns for status 204; it has none of the fields
  of \<open>T\<close>.\<close>

datatype 'a js_value = EmptyObject | Value 'a

text \<open>\<^verbatim>\<open>APIClient.request\<close>: one \<^verbatim>\<open>fetch\<close>, an error for every response that is not ok,
  the empty object for 204 and the parsed body otherwise.\<close>

definition request ::
  "string \<Rightarrow> 'a server \<Rightarrow> string \<Rightarrow> string \<Rightarrow> req_body option \<Rightarrow> net
     \<Rightarrow> (error + 'a js_value) \<times> net" where
  "request baseURL srv endpoint method body n =
     (let req = \<lparr>req_method = method, req_url = baseURL @ endpoint,
                 req_headers = [(''Content-Type'', ''application/json'')],
                 req_body = body, req_cache = None\<rparr>;
          (out, n') = fetch srv req n
      in (case out of
            Rejected msg \<Rightarrow> Inl (FetchError msg)
          | Responded r \<Rightarrow>
              if \<not> ok r then Inl (ApiError (errorMessage r))
              else if status r = 204 then Inr EmptyObject
              else (case body_json r of None \<Rightarrow> Inl JsonError | Some v \<Rightarrow> Inr (Value v)),
          n'))"

record upload_info_metadata =
  max_size :: int
  info_chunk_size :: int
  max_concurrent_uploads :: "nat option"
  protocols :: "string list"
  transfer_acceleration :: "bool option"

datatype upload_method = Tus | S3_multipart

record upload_info =
  upload_method :: upload_method
  endpoint :: string
  info_headers :: "(string \<times> string) list option"
  info_metadata :: "upload_info_metadata option"
  multipart_supported :: "bool option"

definition getUploadInfo ::
  "string \<Rightarrow> upload_info server \<Rightarrow> net \<Rightarrow> (error + upload_info js_value) \<times> net" where
  "getUploadInfo baseURL srv n = request baseURL srv ''/uploads/tus'' ''GET'' None n"

definition initiateMultipartUpload ::
  "string \<Rightarrow> multipart_upload_info server \<Rightarrow> string \<Rightarrow> int \<Rightarrow> string \<Rightarrow> net
     \<Rightarrow> (error + multipart_upload_info js_value) \<times> net" where
  "initiateMultipartUpload baseURL srv filename fileSize contentType n =
     request baseURL srv ''/uploads/s3/initiate'' ''POST''
       (Some (JsonBody (JObj [(''filename'', JStr filename), (''file_size'', JNum fileSize),
                              (''content_type'', JStr contentType)]))) n"

text \<open>The \<^verbatim>\<open>parts\<close> array of the uploader is written by index, so it can have holes;
  \<^verbatim>\<open>JSON.stringify\<close> writes a hole as \<^verbatim>\<open>null\<close>.\<close>

type_synonym parts = "(int \<times> string) option list"

definition parts_json :: "parts \<Rightarrow> json" where
  "parts_json ps =
     JArr (map (\<lambda>p. case p of
                      None \<Rightarrow> JNull
                    | Some (pn, e) \<Rightarrow> JObj [(''part_number'', JNum pn), (''etag'', JStr e)]) ps)"

definition completeMultipartUpload ::
  "string \<Rightarrow> json server \<Rightarrow> string \<Rightarrow> string \<Rightarrow> parts \<Rightarrow> net \<Rightarrow> (error + json js_value) \<times> net" where
  "completeMultipartUpload baseURL srv k uploadId ps n =
     request baseURL srv ''/uploads/s3/complete'' ''POST''
       (Some (JsonBody (JObj [(''key'', JStr k), (''upload_id'', JStr uploadId),
                              (''parts'', parts_json ps)]))) n"

definition abortMultipartUpload ::
  "string \<Rightarrow> unit server \<Rightarrow> string \<Rightarrow> string \<Rightarrow> net \<Rightarrow> (error + unit js_value) \<times> net" where
  "abortMultipartUpload baseURL srv k uploadId n =
     request baseURL srv (''/uploads/s3/abort?key='' @ k @ ''&upload_id='' @ uploadId) ''POST''
       None n"


section \<open>The multipart uploader\<close>

text \<open>The request that \<^verbatim>\<open>uploadPart\<close> sends for one presigned part.\<close>

definition uploadPart_request :: "js_file \<Rightarrow> int \<Rightarrow> part_info \<Rightarrow> http_request" where
  "uploadPart_request f cs partInfo =
     \<lparr>req_method = ''PUT'', req_url = url partInfo,
      req_headers = [(''Content-Type'', file_type f)],
      req_body = Some (BlobBody (uploadPart_chunk f cs partInfo)), req_cache = None\<rparr>"

text \<open>What \<^verbatim>\<open>uploadPart\<close> does with the outcome of its one \<^verbatim>\<open>fetch\<close>: it throws when the
  fetch rejects, when the response is not ok and when the \<^verbatim>\<open>ETag\<close> header is missing or
  empty; otherwise the part is done and its ETag is the result.\<close>

definition uploadPart_result :: "part_info \<Rightarrow> unit fetch_outcome \<Rightarrow> error + string" where
  "uploadPart_result partInfo out =
     (case out of
        Rejected msg \<Rightarrow> Inl (FetchError msg)
      | Responded r \<Rightarrow>
          if \<not> ok r then Inl (PartUploadFailed (part_number partInfo) (statusText r))
          else (case etag r of
                  None \<Rightarrow> Inl (NoETag (part_number partInfo))
                | Some e \<Rightarrow> if e = [] then Inl (NoETag (part_number partInfo)) else Inr e))"

record part_run =
  run_part :: part_info
  run_settled :: nat
  run_result :: "error + string"

text \<open>\<^verbatim>\<open>batch.map(uploadPart)\<close>: every part of the batch runs up to its \<^verbatim>\<open>fetch\<close>, one
  after the other and all at the same time \<open>t\<close>.\<close>

fun start_parts ::
  "unit server \<Rightarrow> js_file \<Rightarrow> int \<Rightarrow> nat \<Rightarrow> part_info list \<Rightarrow> flight list
     \<Rightarrow> part_run list \<times> flight list" where
  "start_parts srv f cs t [] fl = ([], fl)"
| "start_parts srv f cs t (p # ps) fl =
     (let req = uploadPart_request f cs p;
          r = srv (map request_of fl) req;
          fin = t + latency r;
          (runs, fl') = start_parts srv f cs t ps
                          (fl @ [\<lparr>request_of = req, started = t, settled = fin\<rparr>])
      in (\<lparr>run_part = p, run_settled = fin, run_result = uploadPart_result p (outcome r)\<rparr> # runs,
          fl'))"

text \<open>\<^verbatim>\<open>await Promise.all(batchPromises)\<close> rejects with the first rejection in time (the
  earlier part among those that settle together).\<close>

fun first_rejection :: "part_run list \<Rightarrow> (nat \<times> error) option" where
  "first_rejection [] = None"
| "first_rejection (r # rs) =
     (case run_result r of
        Inr _ \<Rightarrow> first_rejection rs
      | Inl e \<Rightarrow>
          (case first_rejection rs of
             None \<Rightarrow> Some (run_settled r, e)
           | Some (t', e') \<Rightarrow> if t' < run_settled r then Some (t', e') else Some (run_settled r, e)))"

text \<open>\<^verbatim>\<open>parts[i] = v\<close> on a JavaScript array: a write past the end leaves holes, and a
  negative index is not an element of the array.\<close>

definition js_set :: "'a option list \<Rightarrow> int \<Rightarrow> 'a \<Rightarrow> 'a option list" where
  "js_set xs i v =
     (if i < 0 then xs
      else if nat i < length xs then xs[nat i := Some v]
      else xs @ replicate (nat i - length xs) None @ [Some v])"

text \<open>The end of \<^verbatim>\<open>uploadPart\<close> for the parts of a batch, in the order in which they
  settle: the ETag is stored at index \<open>part_number - 1\<close> and the size of the chunk is added
  to the completed bytes.\<close>

fun record_parts :: "js_file \<Rightarrow> int \<Rightarrow> part_run list \<Rightarrow> parts \<times> int \<Rightarrow> parts \<times> int" where
  "record_parts f cs [] acc = acc"
| "record_parts f cs (r # rs) (ps, completedBytes) =
     (case run_result r of
        Inl _ \<Rightarrow> record_parts f cs rs (ps, completedBytes)
      | Inr e \<Rightarrow>
          record_parts f cs rs
            (js_set ps (part_number (run_part r) - 1) (part_number (run_part r), e),
             completedBytes + chunk_bytes (uploadPart_chunk f cs (run_part r))))"

text \<open>The \<^verbatim>\<open>for\<close> loop of \<^verbatim>\<open>uploadWithS3Multipart\<close>: the parts from index \<open>i\<close> are started
  \<^verbatim>\<open>maxConcurrent\<close> at a time, and the loop waits for all of them before it goes on. A
  rejection ends the loop with that error; the parts still in flight are left to settle.
  The loop is reached only when \<^verbatim>\<open>new Array(maxConcurrent)\<close> has not thrown, so with a limit
  that is positive (the limit is never 0); the function takes no step for another limit.\<close>

function upload_batches ::
  "unit server \<Rightarrow> js_file \<Rightarrow> multipart_upload_info \<Rightarrow> nat \<Rightarrow> parts \<times> int \<Rightarrow> net
     \<Rightarrow> (error + parts \<times> int) \<times> net" where
  "upload_batches srv f info i acc n =
     (if i < length (presigned_urls info) \<and> 0 < maxConcurrent info then
        (let batch = take (nat (maxConcurrent info)) (drop i (presigned_urls info));
             (runs, fl) = start_parts srv f (chunkSize info) (now n) batch (flights n)
         in case first_rejection runs of
              Some (t, e) \<Rightarrow> (Inl e, \<lparr>flights = fl, now = t\<rparr>)
            | None \<Rightarrow>
                upload_batches srv f info (i + nat (maxConcurrent info))
                  (record_parts f (chunkSize info) (sort_key run_settled runs) acc)
                  \<lparr>flights = fl, now = fold max (map run_settled runs) (now n)\<rparr>)
      else (Inr acc, n))"
  by pat_completeness auto
termination
  by (relation "measure (\<lambda>(srv, f, info, i, acc, n). length (presigned_urls info) - i)")
     auto

declare upload_batches.simps [simp del]

text \<open>The lines of \<^verbatim>\<open>uploadWithS3Multipart\<close> between the initiate call and the completion
  call. \<^verbatim>\<open>new Array(maxConcurrent)\<close> throws a \<^verbatim>\<open>RangeError\<close> for a negative length and for a
  length of \<open>2 ^ 32\<close> or more (and for a fractional one, which an integer limit cannot
  be), before any part is sent; the array that it creates otherwise is never used. Then
  the loop runs from the first part, with no part recorded and no byte completed. (The
  second \<^verbatim>\<open>await Promise.all(uploadPromises)\<close> waits for promises that have all been
  fulfilled.)\<close>

definition uploadParts ::
  "unit server \<Rightarrow> js_file \<Rightarrow> multipart_upload_info \<Rightarrow> net \<Rightarrow> (error + parts \<times> int) \<times> net" where
  "uploadParts srv f info n =
     (if maxConcurrent info < 0 \<or> 2 ^ 32 \<le> maxConcurrent info then (Inl RangeError, n)
      else upload_batches srv f info 0 ([], 0) n)"

record backend =
  initiate_server :: "multipart_upload_info server"
  part_server :: "unit server"
  complete_server :: "json server"

text \<open>\<^verbatim>\<open>uploadWithS3Multipart\<close>: initiate, upload the parts, complete, and return the S3 URL.
  The \<^verbatim>\<open>catch\<close> block logs the error and throws it again, so every error of the body is
  the error of the upload. After a 204 reply to the initiate call \<^verbatim>\<open>presigned_urls\<close> is
  undefined and reading its length throws a \<^verbatim>\<open>TypeError\<close> (the limit is 3 then, so the
  array is created). The progress callbacks are optional and are not part of the model.\<close>

definition uploadWithS3Multipart ::
  "string \<Rightarrow> backend \<Rightarrow> js_file \<Rightarrow> net \<Rightarrow> (error + string) \<times> net" where
  "uploadWithS3Multipart baseURL be f n =
     (case initiateMultipartUpload baseURL (initiate_server be)
             (file_name f) (file_size f) (file_type f) n of
        (Inl e, n1) \<Rightarrow> (Inl e, n1)
      | (Inr EmptyObject, n1) \<Rightarrow> (Inl TypeError, n1)
      | (Inr (Value info), n1) \<Rightarrow>
          (case uploadParts (part_server be) f info n1 of
             (Inl e, n2) \<Rightarrow> (Inl e, n2)
           | (Inr (ps, completedBytes), n2) \<Rightarrow>
               (case completeMultipartUpload baseURL (complete_server be)
                       (key info) (upload_id info) ps n2 of
                  (Inl e, n3) \<Rightarrow> (Inl e, n3)
                | (Inr _, n3) \<Rightarrow>
                    (Inr (''s3://'' @ takeWhile (\<lambda>c. c \<noteq> CHR ''/'') (key info) @ ''/'' @ key info),
                     n3))))"

text \<open>\<^verbatim>\<open>uploadWithTUS\<close> hands the file to the tus client (a library) with these options;
  the retrying is the library's.\<close>

record tus_options =
  tus_endpoint :: string
  retryDelays :: "nat list"
  tus_metadata :: "(string \<times> string) list"

definition uploadWithTUS_options :: "js_file \<Rightarrow> upload_info \<Rightarrow> tus_options" where
  "uploadWithTUS_options f uploadInfo =
     \<lparr>tus_endpoint = endpoint uploadInfo,
      retryDelays = [0, 3000, 5000, 10000, 20000],
      tus_metadata = [(''filename'', file_name f), (''filetype'', file_type f)]\<rparr>"



text \<open>Only PUT requests count as part uploads.\<close>

definition puts :: "flight list \<Rightarrow> flight list" where
  "puts fl = filter (\<lambda>x. req_method (request_of x) = ''PUT'') fl"

text \<open>A pipelined pool: whenever a part upload settles while another part has not
  started yet, a part starts at that very moment.\<close>

definition pipelined :: "flight list \<Rightarrow> bool" where
  "pipelined fl =
     (\<forall>x \<in> set (puts fl).
        (\<exists>y \<in> set (puts fl). settled x < started y)
          \<longrightarrow> (\<exists>y \<in> set (puts fl). started y = settled x))"



text \<open>The schedule of the loop: the requests come in consecutive batches of \<open>m\<close> (the last
  batch may be smaller); all requests of a batch start at the same time \<open>t\<close>, and the next
  batch starts at the moment at which the last request of the batch has settled.\<close>

function in_batches :: "nat \<Rightarrow> nat \<Rightarrow> flight list \<Rightarrow> bool" where
  "in_batches m t fl =
     (if fl = [] \<or> m = 0 then fl = []
      else (list_all (\<lambda>x. started x = t) (take m fl)
            \<and> in_batches m (fold max (map settled (take m fl)) t) (drop m fl)))"
  by pat_completeness auto
termination
  by (relation "measure (\<lambda>(m, t, fl). length fl)") auto

declare in_batches.simps [simp del]


text \<open>The abort request of the API client, by its method and the path of its URL.\<close>

definition is_abort_request :: "string \<Rightarrow> http_request \<Rightarrow> bool" where
  "is_abort_request baseURL r =
     (req_method r = ''POST'' \<and> prefix (baseURL @ ''/uploads/s3/abort'') (req_url r))"

section \<open>The job wrappers of \<^verbatim>\<open>app/lib/api.ts\<close>\<close>

text \<open>Reading a property of a parsed JSON value: reading from \<^verbatim>\<open>null\<close> throws, a value
  that is not an object has none of the properties read here, and a missing property is
  \<^verbatim>\<open>undefined\<close> (\<open>None\<close>).\<close>

definition json_field :: "json \<Rightarrow> string \<Rightarrow> error + json option" where
  "json_field j k =
     (case j of
        JNull \<Rightarrow> Inl TypeError
      | JObj kvs \<Rightarrow> Inr (map_of kvs k)
      | _ \<Rightarrow> Inr None)"

text \<open>\<^verbatim>\<open>await fetch(...)\<close> followed by \<^verbatim>\<open>r.json()\<close>, with no look at the status.\<close>

definition r_json :: "json fetch_outcome \<Rightarrow> error + json" where
  "r_json out =
     (case out of
        Rejected msg \<Rightarrow> Inl (FetchError msg)
      | Responded r \<Rightarrow> (case body_json r of None \<Rightarrow> Inl JsonError | Some j \<Rightarrow> Inr j))"

text \<open>\<^verbatim>\<open>JSON.stringify\<close> of an object literal leaves out the properties whose value is
  \<^verbatim>\<open>undefined\<close>.\<close>

definition stringify :: "(string \<times> json option) list \<Rightarrow> req_body" where
  "stringify kvs =
     JsonBody (JObj (concat (map (\<lambda>(k, v). case v of None \<Rightarrow> [] | Some j \<Rightarrow> [(k, j)]) kvs)))"

definition post :: "string \<Rightarrow> req_body \<Rightarrow> http_request" where
  "post u b =
     \<lparr>req_method = ''POST'', req_url = u,
      req_headers = [(''Content-Type'', ''application/json'')],
      req_body = Some b, req_cache = None\<rparr>"

definition get_no_store :: "string \<Rightarrow> http_request" where
  "get_no_store u =
     \<lparr>req_method = ''GET'', req_url = u, req_headers = [], req_body = None,
      req_cache = Some ''no-store''\<rparr>"

definition getTusEndpoint :: "string \<Rightarrow> json server \<Rightarrow> net \<Rightarrow> (error + json option) \<times> net" where
  "getTusEndpoint API srv n =
     (let (out, n') = fetch srv (get_no_store (API @ ''/uploads/tus'')) n
      in (case out of
            Rejected msg \<Rightarrow> Inl (FetchError msg)
          | Responded r \<Rightarrow>
              if \<not> ok r then Inl TusEndpointFailed
              else (case body_json r of
                      None \<Rightarrow> Inl JsonError
                    | Some j \<Rightarrow> json_field j ''tus_endpoint''),
          n'))"

definition createSplit :: "string \<Rightarrow> json server \<Rightarrow> string \<Rightarrow> net \<Rightarrow> (error + json) \<times> net" where
  "createSplit API srv tus_url n =
     (let (out, n') = fetch srv (post (API @ ''/split'')
                                   (stringify [(''tus_url'', Some (JStr tus_url))])) n
      in (r_json out, n'))"

text \<open>The two URLs of \<^verbatim>\<open>createMerge\<close> are declared as strings; the model takes the value
  that the caller has at run time, \<open>None\<close> for \<^verbatim>\<open>undefined\<close>.\<close>

definition createMerge ::
  "string \<Rightarrow> json server \<Rightarrow> json option \<Rightarrow> json option \<Rightarrow> int \<Rightarrow> net
     \<Rightarrow> (error + json) \<times> net" where
  "createMerge API srv video_tus_url audio_tus_url offset_sec n =
     (let (out, n') = fetch srv (post (API @ ''/merge'')
                                   (stringify [(''video_tus_url'', video_tus_url),
                                               (''audio_tus_url'', audio_tus_url),
                                               (''offset_sec'', Some (JNum offset_sec))])) n
      in (r_json out, n'))"

definition createTranscribe :: "string \<Rightarrow> json server \<Rightarrow> string \<Rightarrow> net \<Rightarrow> (error + json) \<times> net" where
  "createTranscribe API srv tus_url n =
     (let (out, n') = fetch srv (post (API @ ''/transcribe'')
                                   (stringify [(''tus_url'', Some (JStr tus_url)),
                                               (''target_languages'', Some (JArr [JStr ''original'']))])) n
      in (r_json out, n'))"

definition bulkRename ::
  "string \<Rightarrow> json server \<Rightarrow> json list \<Rightarrow> string \<Rightarrow> int \<Rightarrow> int \<Rightarrow> bool \<Rightarrow> net
     \<Rightarrow> (error + json) \<times> net" where
  "bulkRename API srv keys pattern start_index pad dryRun n =
     (let (out, n') = fetch srv (post (API @ ''/rename'')
                                   (stringify [(''keys'', Some (JArr keys)),
                                               (''pattern'', Some (JStr pattern)),
                                               (''start_index'', Some (JNum start_index)),
                                               (''pad'', Some (JNum pad)),
                                               (''dryRun'', Some (JBool dryRun))])) n
      in (r_json out, n'))"

definition getJob :: "string \<Rightarrow> json server \<Rightarrow> string \<Rightarrow> net \<Rightarrow> (error + json) \<times> net" where
  "getJob API srv task_id n =
     (let (out, n') = fetch srv (get_no_store (API @ ''/jobs/'' @ task_id)) n
      in (r_json out, n'))"

section \<open>The polling loop of the feature page\<close>

datatype poll_event = OnUpdate json | SetTimeout nat

record poller =
  poll_net :: net
  events :: "poll_event list"

text \<open>\<^verbatim>\<open>s.state === "SUCCESS" || s.state === "FAILURE"\<close>.\<close>

definition terminal :: "json option \<Rightarrow> bool" where
  "terminal st = (st = Some (JStr ''SUCCESS'') \<or> st = Some (JStr ''FAILURE''))"

text \<open>\<^verbatim>\<open>pollJob\<close>: one status request, the snapshot handed to the callback, the end of the
  loop for a terminal state and a sleep of 1200 ms otherwise. The loop has no other exit
  than an exception (a request that fails, or a body that is \<^verbatim>\<open>null\<close>), so it may run
  forever: the result is \<open>None\<close> then. A result \<open>(None, p)\<close> is the normal end, a result
  \<open>(Some e, p)\<close> the exception \<open>e\<close>.\<close>

partial_function (option) pollJob ::
  "string \<Rightarrow> json server \<Rightarrow> string \<Rightarrow> poller \<Rightarrow> (error option \<times> poller) option" where
  "pollJob API srv task_id p =
     (case getJob API srv task_id (poll_net p) of
        (Inl e, n') \<Rightarrow> Some (Some e, p\<lparr>poll_net := n'\<rparr>)
      | (Inr s, n') \<Rightarrow>
          (case json_field s ''state'' of
             Inl e \<Rightarrow> Some (Some e, \<lparr>poll_net = n', events = events p @ [OnUpdate s]\<rparr>)
           | Inr st \<Rightarrow>
               if terminal st
               then Some (None, \<lparr>poll_net = n', events = events p @ [OnUpdate s]\<rparr>)
               else pollJob API srv task_id
                      \<lparr>poll_net = n'\<lparr>now := now n' + 1200\<rparr>,
                       events = events p @ [OnUpdate s, SetTimeout 1200]\<rparr>))"


text \<open>The request of \<^verbatim>\<open>getJob\<close>, and the answer to the status request number \<open>k\<close>
  (counted from 0) of a loop that starts after the requests \<open>h\<close>: the loop is the only
  client, so that request is made after \<open>k\<close> status requests.\<close>

definition job_request :: "string \<Rightarrow> string \<Rightarrow> http_request" where
  "job_request API task_id = get_no_store (API @ ''/jobs/'' @ task_id)"

definition snapshot ::
  "string \<Rightarrow> json server \<Rightarrow> string \<Rightarrow> http_request list \<Rightarrow> nat \<Rightarrow> error + json" where
  "snapshot API srv task_id h k =
     r_json (outcome (srv (h @ replicate k (job_request API task_id)) (job_request API task_id)))"

text \<open>A snapshot whose state can be read and is not terminal.\<close>

definition pending :: "error + json \<Rightarrow> bool" where
  "pending x =
     (case x of
        Inl e \<Rightarrow> False
      | Inr s \<Rightarrow> (case json_field s ''state'' of Inl e \<Rightarrow> False | Inr st \<Rightarrow> \<not> terminal st))"

definition finished :: "error + json \<Rightarrow> bool" where
  "finished x =
     (case x of
        Inl e \<Rightarrow> False
      | Inr s \<Rightarrow> (case json_field s ''state'' of Inl e \<Rightarrow> False | Inr st \<Rightarrow> terminal st))"

text \<open>Requests that follow each other at a fixed delay: each starts \<open>d\<close> ms after the
  one before it has settled.\<close>

fun spaced :: "nat \<Rightarrow> flight list \<Rightarrow> bool" where
  "spaced d [] = True"
| "spaced d [x] = True"
| "spaced d (x # y # zs) = (started y = settled x + d \<and> spaced d (y # zs))"

text \<open>The snapshots handed to the callback, in order, and those handed to it after the
  first \<open>c\<close> of a run. \<^verbatim>\<open>pollJob\<close> takes a task id and a callback and nothing else, so a
  cancellation of the tracking is a moment of the run (after \<open>c\<close> answers), not an input
  of the loop.\<close>

definition updates :: "poll_event list \<Rightarrow> json list" where
  "updates evs = concat (map (\<lambda>e. case e of OnUpdate s \<Rightarrow> [s] | SetTimeout ms \<Rightarrow> []) evs)"

definition emitted_after :: "nat \<Rightarrow> (error option \<times> poller) option \<Rightarrow> json list option" where
  "emitted_after c run = map_option (\<lambda>(r, p). drop c (updates (events p))) run"

section \<open>The uploader component and the merge panel\<close>

text \<open>The effect that \<^verbatim>\<open>TusUploader\<close> runs when it is mounted: it asks for the tus endpoint
  and logs it; nothing is kept.\<close>

definition onMount :: "string \<Rightarrow> json server \<Rightarrow> net \<Rightarrow> (error + json option) \<times> net" where
  "onMount API srv n = getTusEndpoint API srv n"

text \<open>\<^verbatim>\<open>TusUploader.onPick\<close> asks for the tus endpoint on every pick and hands the files to
  Uppy (a library) with that endpoint and a chunk size of 5 MB. Its last line,
  \<^verbatim>\<open>e.currentTarget.value = ""\<close>, runs after the \<^verbatim>\<open>await\<close>, when React has reset
  \<^verbatim>\<open>currentTarget\<close> to \<^verbatim>\<open>null\<close>: the assignment throws a \<^verbatim>\<open>TypeError\<close>. So the handler always
  ends with an error: that of the discovery, with nothing handed to Uppy, or the
  \<^verbatim>\<open>TypeError\<close>, after the files were handed to Uppy and the handler for
  \<^verbatim>\<open>upload-success\<close> was registered.\<close>

record uppy_job =
  uppy_endpoint :: "json option"
  uppy_chunkSize :: int
  uppy_files :: "js_file list"

definition onPick ::
  "string \<Rightarrow> json server \<Rightarrow> js_file list \<Rightarrow> net \<Rightarrow> (error \<times> uppy_job option) \<times> net" where
  "onPick API srv files n =
     (case getTusEndpoint API srv n of
        (Inl e, n') \<Rightarrow> ((e, None), n')
      | (Inr tus, n') \<Rightarrow>
          ((TypeError,
            Some \<lparr>uppy_endpoint = tus, uppy_chunkSize = 5 * 1024 * 1024, uppy_files = files\<rparr>),
           n'))"

text \<open>The \<^verbatim>\<open>upload-success\<close> handler of \<^verbatim>\<open>TusUploader\<close>: the callback of the parent gets the
  upload URL and the file name, two strings.\<close>

definition upload_success :: "(json \<Rightarrow> json \<Rightarrow> 'r) \<Rightarrow> string \<Rightarrow> string \<Rightarrow> 'r" where
  "upload_success onUploaded uploadURL name = onUploaded (JStr uploadURL) (JStr name)"

text \<open>The state of \<^verbatim>\<open>MergePanel\<close>. A property that was read as \<^verbatim>\<open>undefined\<close> is \<open>None\<close>.\<close>

record upload_ref =
  ref_name :: "json option"
  ref_tusUrl :: "json option"

record merge_job =
  mj_id :: "json option"
  mj_state :: string

record merge_panel =
  video :: "upload_ref option"
  audio :: "upload_ref option"
  job :: "merge_job option"

text \<open>The callbacks that \<^verbatim>\<open>MergePanel\<close> gives to its two uploaders,
  \<^verbatim>\<open>(f) => setVideo({name: f.name, tusUrl: f.tusUrl})\<close> and the same for the audio: they take
  one argument and read two properties of it.\<close>

definition onVideoUploaded :: "merge_panel \<Rightarrow> json \<Rightarrow> json \<Rightarrow> error + merge_panel" where
  "onVideoUploaded st f ignored =
     (case (json_field f ''name'', json_field f ''tusUrl'') of
        (Inr nm, Inr tu) \<Rightarrow> Inr (st\<lparr>video := Some \<lparr>ref_name = nm, ref_tusUrl = tu\<rparr>\<rparr>)
      | _ \<Rightarrow> Inl TypeError)"

definition onAudioUploaded :: "merge_panel \<Rightarrow> json \<Rightarrow> json \<Rightarrow> error + merge_panel" where
  "onAudioUploaded st f ignored =
     (case (json_field f ''name'', json_field f ''tusUrl'') of
        (Inr nm, Inr tu) \<Rightarrow> Inr (st\<lparr>audio := Some \<lparr>ref_name = nm, ref_tusUrl = tu\<rparr>\<rparr>)
      | _ \<Rightarrow> Inl TypeError)"

text \<open>A click on the Merge button, up to the first \<^verbatim>\<open>setJob\<close>: the button is disabled
  while \<^verbatim>\<open>!video || !audio\<close>, and the handler submits the merge with the two \<^verbatim>\<open>tusUrl\<close>
  properties. (The polling loop that follows in the handler is not part of this
  function.)\<close>

definition onClick ::
  "string \<Rightarrow> json server \<Rightarrow> merge_panel \<Rightarrow> net \<Rightarrow> (error + merge_panel) \<times> net" where
  "onClick API srv st n =
     (case (video st, audio st) of
        (Some v, Some a) \<Rightarrow>
          (case createMerge API srv (ref_tusUrl v) (ref_tusUrl a) 0 n of
             (Inl e, n') \<Rightarrow> (Inl e, n')
           | (Inr j, n') \<Rightarrow>
               (case json_field j ''task_id'' of
                  Inl e \<Rightarrow> (Inl e, n')
                | Inr task_id \<Rightarrow>
                    (Inr (st\<lparr>job := Some \<lparr>mj_id = task_id, mj_state = ''PENDING''\<rparr>\<rparr>), n')))
      | _ \<Rightarrow> (Inr st, n))"


section \<open>The feature page\<close>

text \<open>Strings are byte strings here: \<^verbatim>\<open>toLowerCase\<close>, \<^verbatim>\<open>trim\<close> and the \<^verbatim>\<open>i\<close> flag of a
  regular expression act on the ASCII letters and the ASCII white space.\<close>

definition to_lower :: "char \<Rightarrow> char" where
  "to_lower c =
     (let k = (of_char c :: nat) in if 65 \<le> k \<and> k \<le> 90 then char_of (k + 32) else c)"

definition toLowerCase :: "string \<Rightarrow> string" where
  "toLowerCase s = map to_lower s"

definition is_space :: "char \<Rightarrow> bool" where
  "is_space c = ((of_char c :: nat) \<in> {9, 10, 11, 12, 13, 32})"

definition trim :: "string \<Rightarrow> string" where
  "trim s = rev (dropWhile is_space (rev (dropWhile is_space s)))"

fun str_includes :: "string \<Rightarrow> string \<Rightarrow> bool" where
  "str_includes [] needle = (needle = [])"
| "str_includes (c # cs) needle = (prefix needle (c # cs) \<or> str_includes cs needle)"

definition normalizeName :: "string \<Rightarrow> string" where
  "normalizeName n = trim (toLowerCase n)"

text \<open>\<^verbatim>\<open>/\.(mp4|mov|mkv|avi|webm)$/i.test(name)\<close> and its audio counterpart.\<close>

definition has_extension :: "string list \<Rightarrow> string \<Rightarrow> bool" where
  "has_extension exts name = list_ex (\<lambda>e. suffix (CHR ''.'' # e) (toLowerCase name)) exts"

definition is_video :: "js_file \<Rightarrow> bool" where
  "is_video f =
     (prefix ''video/'' (file_type f)
      \<or> has_extension [''mp4'', ''mov'', ''mkv'', ''avi'', ''webm''] (file_name f))"

definition is_audio :: "js_file \<Rightarrow> bool" where
  "is_audio f =
     (prefix ''audio/'' (file_type f)
      \<or> has_extension [''wav'', ''mp3'', ''m4a'', ''aac'', ''flac'', ''ogg''] (file_name f))"

definition pickVideoAudio :: "js_file list \<Rightarrow> js_file option \<times> js_file option" where
  "pickVideoAudio files = (find is_video files, find is_audio files)"

definition ensureFilesEndpoint :: "string \<Rightarrow> string" where
  "ensureFilesEndpoint base =
     (if suffix ''/files'' base then base
      else (if base \<noteq> [] \<and> last base = CHR ''/'' then butlast base else base) @ ''/files'')"

datatype job_kind = Split | Merge | Transcribe | Rename

text \<open>An entry of the job list. The status is declared as one of five strings, but what
  the callback of \<^verbatim>\<open>pollJob\<close> stores there is \<^verbatim>\<open>s.state\<close>, cast and not checked; so the
  status, like the id, the result and the error, is a value as it was read (\<open>None\<close> for
  \<^verbatim>\<open>undefined\<close>).\<close>

record job_entry =
  job_id :: "json option"
  job_label :: string
  job_kind :: job_kind
  job_status :: "json option"
  job_tusUrl :: "string option"
  job_result :: "json option"
  job_error :: "json option"

datatype alert = Message string | OfError error

text \<open>The state of the page, with what the page has done so far: the alerts shown, the
  uploads handed to Uppy (endpoint and files), the task ids for which \<^verbatim>\<open>pollJob\<close> was
  started, and the requests made with \<^verbatim>\<open>fetch\<close>.\<close>

record page =
  featureName :: string
  uploadedFiles :: "js_file list"
  tusEndpoint :: string
  jobs :: "job_entry list"
  isProcessing :: bool
  alerts :: "alert list"
  uppy_uploads :: "(string \<times> js_file list) list"
  polls :: "json option list"
  page_net :: net

text \<open>What the page does not decide: the backend, the outcome of an Uppy upload (per
  file the upload URL, or \<open>None\<close> for an \<^verbatim>\<open>upload-error\<close>), the text of a file and
  \<^verbatim>\<open>JSON.parse\<close>.\<close>

record page_env =
  env_API :: string
  env_server :: "json server"
  env_uppy :: "string \<Rightarrow> js_file list \<Rightarrow> error + (js_file \<times> string option) list"
  env_text :: "js_file \<Rightarrow> string"
  env_parse :: "string \<Rightarrow> json option"

definition uploadViaTus ::
  "page_env \<Rightarrow> js_file list \<Rightarrow> page \<Rightarrow> (error + (js_file \<times> string) list) \<times> page" where
  "uploadViaTus env files pg =
     (case (if tusEndpoint pg \<noteq> [] then (Inr (tusEndpoint pg), pg)
            else (case getTusEndpoint (env_API env) (env_server env) (page_net pg) of
                    (Inl e, n') \<Rightarrow> (Inl e, pg\<lparr>page_net := n'\<rparr>)
                  | (Inr (Some (JStr ep)), n') \<Rightarrow>
                      (Inr (ensureFilesEndpoint ep),
                       pg\<lparr>page_net := n', tusEndpoint := ensureFilesEndpoint ep\<rparr>)
                  | (Inr _, n') \<Rightarrow> (Inl TypeError, pg\<lparr>page_net := n'\<rparr>))) of
        (Inl e, pg1) \<Rightarrow> (Inl e, pg1)
      | (Inr base, pg1) \<Rightarrow>
          (let endpoint = ensureFilesEndpoint base;
               pg2 = pg1\<lparr>uppy_uploads := uppy_uploads pg1 @ [(endpoint, files)]\<rparr>
           in case env_uppy env endpoint files of
                Inl e \<Rightarrow> (Inl e, pg2)
              | Inr evs \<Rightarrow>
                  (Inr (concat (map (\<lambda>(f, u). case u of None \<Rightarrow> [] | Some tusUrl \<Rightarrow> [(f, tusUrl)]) evs)),
                   pg2\<lparr>alerts := alerts pg2 @
                          concat (map (\<lambda>(f, u). case u of
                                          None \<Rightarrow> [Message (''Failed to upload '' @ file_name f)]
                                        | Some _ \<Rightarrow> []) evs)\<rparr>)))"

text \<open>The lines that every branch of \<^verbatim>\<open>onGetStarted\<close> repeats for one job: the entry is
  added as queued, the job is submitted, the entry gets the task id and is marked as
  started, and \<^verbatim>\<open>pollJob\<close> is started without being awaited.\<close>

definition submit_job ::
  "(net \<Rightarrow> (error + json) \<times> net) \<Rightarrow> job_entry \<Rightarrow> page \<Rightarrow> error option \<times> page" where
  "submit_job create tmp pg =
     (let pg1 = pg\<lparr>jobs := jobs pg @ [tmp]\<rparr>
      in case create (page_net pg1) of
           (Inl e, n') \<Rightarrow> (Some e, pg1\<lparr>page_net := n'\<rparr>)
         | (Inr j, n') \<Rightarrow>
             (case json_field j ''task_id'' of
                Inl e \<Rightarrow> (Some e, pg1\<lparr>page_net := n'\<rparr>)
              | Inr task_id \<Rightarrow>
                  (None,
                   pg\<lparr>jobs := jobs pg @ [tmp\<lparr>job_id := task_id, job_status := Some (JStr ''STARTED'')\<rparr>],
                      polls := polls pg @ [task_id], page_net := n'\<rparr>)))"

fun submit_each ::
  "(string \<Rightarrow> net \<Rightarrow> (error + json) \<times> net) \<Rightarrow> job_kind \<Rightarrow> (js_file \<times> string) list \<Rightarrow> page
     \<Rightarrow> error option \<times> page" where
  "submit_each create k [] pg = (None, pg)"
| "submit_each create k ((f, tusUrl) # ups) pg =
     (case submit_job (create tusUrl)
             \<lparr>job_id = None, job_label = file_name f, job_kind = k,
              job_status = Some (JStr ''QUEUED''), job_tusUrl = Some tusUrl,
              job_result = None, job_error = None\<rparr> pg of
        (Some e, pg') \<Rightarrow> (Some e, pg')
      | (None, pg') \<Rightarrow> submit_each create k ups pg')"

text \<open>The callback that every branch of \<^verbatim>\<open>onGetStarted\<close> hands to \<^verbatim>\<open>pollJob\<close> for the task
  id \<open>tid\<close>: \<^verbatim>\<open>(s) => setJobs((j) => j.map((x) => x.id === id ? {...x, status: s.state,
  result: s.result, error: s.error} : x))\<close>. It checks nothing. The function below is the
  update that it queues, applied to a job list: the three properties of the snapshot are
  read for an entry of that id (which throws when the snapshot is \<^verbatim>\<open>null\<close>), and every such
  entry is overwritten (\<open>update_entry\<close> is the function that \<^verbatim>\<open>j.map\<close> applies). Ids are
  compared as values; a task id is a string, or \<^verbatim>\<open>undefined\<close> when the reply to the
  submission had none.\<close>

definition update_entry ::
  "json option \<Rightarrow> json option \<Rightarrow> json option \<Rightarrow> json option \<Rightarrow> job_entry \<Rightarrow> job_entry" where
  "update_entry tid st res err x =
     (if job_id x = tid then x\<lparr>job_status := st, job_result := res, job_error := err\<rparr> else x)"

definition onUpdate :: "json option \<Rightarrow> json \<Rightarrow> job_entry list \<Rightarrow> error + job_entry list" where
  "onUpdate tid s js =
     (if list_all (\<lambda>x. job_id x \<noteq> tid) js then Inr js
      else (case (json_field s ''state'', json_field s ''result'', json_field s ''error'') of
              (Inr st, Inr res, Inr err) \<Rightarrow> Inr (map (update_entry tid st res err) js)
            | _ \<Rightarrow> Inl TypeError))"

text \<open>The updates queued for the snapshots \<open>ss\<close>, applied in order to a job list.\<close>

fun apply_updates :: "json option \<Rightarrow> json list \<Rightarrow> job_entry list \<Rightarrow> error + job_entry list" where
  "apply_updates tid [] js = Inr js"
| "apply_updates tid (s # ss) js =
     (case onUpdate tid s js of Inl e \<Rightarrow> Inl e | Inr js' \<Rightarrow> apply_updates tid ss js')"

text \<open>What the updates that a run of \<^verbatim>\<open>pollJob\<close> queues after its first \<open>c\<close> answers make of
  the job list \<open>js\<close>.\<close>

definition written_after ::
  "nat \<Rightarrow> json option \<Rightarrow> job_entry list \<Rightarrow> (error option \<times> poller) option
     \<Rightarrow> (error + job_entry list) option" where
  "written_after c tid js run =
     map_option (\<lambda>(r, p). apply_updates tid (drop c (updates (events p))) js) run"

text \<open>A number in a template literal.\<close>

fun string_of_nat :: "nat \<Rightarrow> string" where
  "string_of_nat n =
     (if n < 10 then [char_of (48 + n)]
      else string_of_nat (n div 10) @ [char_of (48 + n mod 10)])"

text \<open>\<^verbatim>\<open>(f?.name || "").toLowerCase().split(".").pop()\<close>.\<close>

definition extension :: "string \<Rightarrow> string" where
  "extension name = rev (takeWhile (\<lambda>c. c \<noteq> CHR ''.'') (rev (toLowerCase name)))"

text \<open>\<^verbatim>\<open>txt.split(/\r?\n/)\<close>.\<close>

fun split_lines :: "string \<Rightarrow> string \<Rightarrow> string list" where
  "split_lines cur [] = [rev cur]"
| "split_lines cur (c # cs) =
     (if c = CHR 0x0A then rev cur # split_lines [] cs
      else if c = CHR 0x0D \<and> (case cs of d # _ \<Rightarrow> d = CHR 0x0A | [] \<Rightarrow> False)
           then rev cur # split_lines [] (tl cs)
      else split_lines (c # cur) cs)"

definition rename_keys :: "page_env \<Rightarrow> js_file \<Rightarrow> json list" where
  "rename_keys env f =
     (let txt = env_text env f
      in case env_parse env txt of
           Some (JArr xs) \<Rightarrow> xs
         | Some _ \<Rightarrow> []
         | None \<Rightarrow> map JStr (filter (\<lambda>l. l \<noteq> []) (map trim (split_lines [] txt))))"

text \<open>The body of the \<^verbatim>\<open>try\<close> block of \<^verbatim>\<open>onGetStarted\<close>; an error is what the \<^verbatim>\<open>catch\<close>
  block gets.\<close>

definition dispatch :: "page_env \<Rightarrow> page \<Rightarrow> error option \<times> page" where
  "dispatch env pg =
     (let which = normalizeName (featureName pg) in
      if str_includes which ''split'' \<and> str_includes which ''music'' then
        (case uploadViaTus env (uploadedFiles pg) pg of
           (Inl e, pg1) \<Rightarrow> (Some e, pg1)
         | (Inr ups, pg1) \<Rightarrow> submit_each (createSplit (env_API env) (env_server env)) Split ups pg1)
      else if str_includes which ''merge'' then
        (case pickVideoAudio (uploadedFiles pg) of
           (Some vid, Some aud) \<Rightarrow>
             (case uploadViaTus env [vid, aud] pg of
                (Inl e, pg1) \<Rightarrow> (Some e, pg1)
              | (Inr ups, pg1) \<Rightarrow>
                  (case (find (\<lambda>u. fst u = vid) ups, find (\<lambda>u. fst u = aud) ups) of
                     (Some v, Some a) \<Rightarrow>
                       submit_job
                         (createMerge (env_API env) (env_server env)
                            (Some (JStr (snd v))) (Some (JStr (snd a))) 0)
                         \<lparr>job_id = None, job_label = file_name vid @ '' + '' @ file_name aud,
                          job_kind = Merge, job_status = Some (JStr ''QUEUED''),
                          job_tusUrl = None, job_result = None, job_error = None\<rparr> pg1
                   | _ \<Rightarrow> (Some TypeError, pg1)))
         | _ \<Rightarrow>
             (None, pg\<lparr>alerts := alerts pg @
                         [Message ''Please upload one video file and one audio file.'']\<rparr>))
      else if str_includes which ''transcribe'' \<or> str_includes which ''translate'' then
        (case uploadViaTus env (uploadedFiles pg) pg of
           (Inl e, pg1) \<Rightarrow> (Some e, pg1)
         | (Inr ups, pg1) \<Rightarrow>
             submit_each (createTranscribe (env_API env) (env_server env)) Transcribe ups pg1)
      else if str_includes which ''rename'' then
        (case uploadedFiles pg of
           [] \<Rightarrow>
             (None, pg\<lparr>alerts := alerts pg @
                [Message ''For Rename, upload a .txt (one key per line) or .json (array of keys) containing MinIO keys.'']\<rparr>)
         | f # _ \<Rightarrow>
             if extension (file_name f) \<notin> {''txt'', ''json''} then
               (None, pg\<lparr>alerts := alerts pg @
                  [Message ''For Rename, upload a .txt (one key per line) or .json (array of keys) containing MinIO keys.'']\<rparr>)
             else if rename_keys env f = [] then
               (None, pg\<lparr>alerts := alerts pg @
                  [Message ''No keys found. Provide a .txt (one per line) or .json array of keys.'']\<rparr>)
             else
               submit_job
                 (bulkRename (env_API env) (env_server env) (rename_keys env f)
                    ''SERIES_{basename}_EP-{index}{ext}'' 1 2 False)
                 \<lparr>job_id = None,
                  job_label = ''Rename '' @ string_of_nat (length (rename_keys env f)) @ '' files'',
                  job_kind = Rename,
                  job_status = Some (JStr ''QUEUED''), job_tusUrl = None,
                  job_result = None, job_error = None\<rparr> pg)
      else (None, pg))"

text \<open>\<^verbatim>\<open>onGetStarted\<close>: nothing happens without files; otherwise the page is marked as
  processing, the \<^verbatim>\<open>try\<close> block runs, an error is shown in an alert, and the \<^verbatim>\<open>finally\<close>
  block clears the mark.\<close>

definition onGetStarted :: "page_env \<Rightarrow> page \<Rightarrow> page" where
  "onGetStarted env pg =
     (if uploadedFiles pg = [] then pg
      else (case dispatch env (pg\<lparr>isProcessing := True\<rparr>) of
              (None, pg1) \<Rightarrow> pg1\<lparr>isProcessing := False\<rparr>
            | (Some e, pg1) \<Rightarrow> pg1\<lparr>alerts := alerts pg1 @ [OfError e], isProcessing := False\<rparr>))"


section \<open>Concrete inputs\<close>

text \<open>A file of 12 MB, the initiate reply for it with chunks of 5 MB and two uploads at
  a time, and backends around it. Times are in milliseconds.\<close>

definition idle :: net where
  "idle = \<lparr>flights = [], now = 0\<rparr>"

definition demo_file :: js_file where
  "demo_file =
     \<lparr>file_name = ''clip.mp4'', file_type = ''video/mp4'', file_size = 12 * 1024 * 1024\<rparr>"

definition demo_sign :: "int \<Rightarrow> string" where
  "demo_sign i =
     (if i = 1 then ''https://s3/part1'' else if i = 2 then ''https://s3/part2''
      else ''https://s3/part3'')"

definition demo_info :: multipart_upload_info where
  "demo_info =
     \<lparr>upload_id = ''u-1'', key = ''raw/clip.mp4'',
      presigned_urls = presigned_parts demo_sign (12 * 1024 * 1024) (5 * 1024 * 1024),
      complete_url = ''/uploads/s3/complete'', abort_url = ''/uploads/s3/abort'',
      metadata = Some \<lparr>chunk_size = 5 * 1024 * 1024, max_concurrent = 2\<rparr>\<rparr>"

definition respond :: "nat \<Rightarrow> string \<Rightarrow> string option \<Rightarrow> 'a option \<Rightarrow> 'a http_response" where
  "respond st txt tag v =
     \<lparr>status = st, statusText = txt, etag = tag, body_text = [], body_parse = None,
      body_json = v\<rparr>"

definition after :: "nat \<Rightarrow> 'a http_response \<Rightarrow> 'a reply" where
  "after ms r = \<lparr>latency = ms, outcome = Responded r\<rparr>"

text \<open>Every request succeeds; the second part takes 300 ms, the others 100 ms.\<close>

definition demo_backend :: backend where
  "demo_backend =
     \<lparr>initiate_server = (\<lambda>h r. after 10 (respond 200 ''OK'' None (Some demo_info))),
      part_server = (\<lambda>h r. after (if req_url r = ''https://s3/part2'' then 300 else 100)
                              (respond 200 ''OK'' (Some ''etag'') None)),
      complete_server = (\<lambda>h r. after 10 (respond 200 ''OK'' None (Some JNull)))\<rparr>"

text \<open>The completion call fails with status 500.\<close>

definition failing_complete_backend :: backend where
  "failing_complete_backend =
     demo_backend\<lparr>complete_server :=
       (\<lambda>h r. after 10 (respond 500 ''Internal Server Error'' None None))\<rparr>"

text \<open>The first PUT of a part is answered with 503, every later PUT of the same part with
  200 and an ETag.\<close>

definition flaky_backend :: backend where
  "flaky_backend =
     demo_backend\<lparr>part_server :=
       (\<lambda>h r. if r \<in> set h then after 100 (respond 200 ''OK'' (Some ''etag'') None)
               else after 100 (respond 503 ''Service Unavailable'' None None))\<rparr>"

text \<open>A job that is started at the first status request and done at the second.\<close>

definition demo_status_server :: "json server" where
  "demo_status_server =
     (\<lambda>h r. after 50 (respond 200 ''OK'' None
                        (Some (JObj [(''state'', JStr (if h = [] then ''STARTED'' else ''SUCCESS''))]))))"

text \<open>A backend that answers every job request with status 500 and a JSON error body.\<close>

definition failing_job_server :: "json server" where
  "failing_job_server =
     (\<lambda>h r. after 50 (respond 500 ''Internal Server Error'' None
                        (Some (JObj [(''detail'', JStr ''boom'')]))))"

text \<open>A backend whose first answer to a status request is a 502 with a body that is not
  JSON; from the second request on the job is done.\<close>

definition bad_gateway_server :: "json server" where
  "bad_gateway_server =
     (\<lambda>h r. if h = [] then after 50 (respond 502 ''Bad Gateway'' None None)
             else after 50 (respond 200 ''OK'' None (Some (JObj [(''state'', JStr ''SUCCESS'')]))))"

text \<open>A job that never leaves the state \<^verbatim>\<open>STARTED\<close>.\<close>

definition stuck_status_server :: "json server" where
  "stuck_status_server =
     (\<lambda>h r. after 50 (respond 200 ''OK'' None (Some (JObj [(''state'', JStr ''STARTED'')]))))"

text \<open>A job that is pending at the first status request, started at the second and done,
  with a result, at the third; and a job list that holds this job and another one.\<close>

definition slow_status_server :: "json server" where
  "slow_status_server =
     (\<lambda>h r. after 50 (respond 200 ''OK'' None
                (Some (if length h = 0 then JObj [(''state'', JStr ''PENDING'')]
                       else if length h = 1 then JObj [(''state'', JStr ''STARTED'')]
                       else JObj [(''state'', JStr ''SUCCESS''),
                                  (''result'', JStr ''s3://out/t1'')]))))"

definition demo_jobs :: "job_entry list" where
  "demo_jobs =
     [\<lparr>job_id = Some (JStr ''t1''), job_label = ''clip.mp4'', job_kind = Split,
       job_status = Some (JStr ''STARTED''), job_tusUrl = Some ''http://localhost:8080/files/v1'',
       job_result = None, job_error = None\<rparr>,
      \<lparr>job_id = Some (JStr ''t2''), job_label = ''voice.wav'', job_kind = Split,
       job_status = Some (JStr ''STARTED''), job_tusUrl = Some ''http://localhost:8080/files/a1'',
       job_result = None, job_error = None\<rparr>]"

text \<open>Servers that answer every request alike: with 204 and no body, with the upload
  capability, with the tus endpoint, and with a task id.\<close>

definition no_content_server :: "unit server" where
  "no_content_server = (\<lambda>h r. after 10 (respond 204 ''No Content'' None None))"

definition demo_upload_info :: upload_info where
  "demo_upload_info =
     \<lparr>upload_method = Tus, endpoint = ''http://localhost:8080/files/'', info_headers = None,
      info_metadata = None, multipart_supported = Some False\<rparr>"

definition info_server :: "upload_info server" where
  "info_server = (\<lambda>h r. after 10 (respond 200 ''OK'' None (Some demo_upload_info)))"

definition endpoint_server :: "json server" where
  "endpoint_server =
     (\<lambda>h r. after 10 (respond 200 ''OK'' None
                (Some (JObj [(''tus_endpoint'', JStr ''http://localhost:8080'')]))))"

definition task_server :: "json server" where
  "task_server =
     (\<lambda>h r. after 50 (respond 200 ''OK'' None (Some (JObj [(''task_id'', JStr ''t1'')]))))"

text \<open>What a pipelined pool of two would do with the three parts of the file when they
  take 100 ms, 300 ms and 100 ms: the third part starts when the first has settled.\<close>

definition part_flight :: "int \<Rightarrow> nat \<Rightarrow> nat \<Rightarrow> flight" where
  "part_flight i s e =
     \<lparr>request_of = uploadPart_request demo_file (chunkSize demo_info)
                     (presigned_part demo_sign (file_size demo_file) (chunkSize demo_info) i),
      started = s, settled = e\<rparr>"

definition pipelined_schedule :: "flight list" where
  "pipelined_schedule = [part_flight 1 10 110, part_flight 2 10 310, part_flight 3 110 210]"

text \<open>The requests of a list that go to one URL.\<close>

definition requests_to :: "string \<Rightarrow> http_request list \<Rightarrow> http_request list" where
  "requests_to u rs = filter (\<lambda>r. req_url r = u) rs"

text \<open>The merge panel after its two uploaders have reported one successful upload
  each.\<close>

definition panel_after_uploads :: "error + merge_panel" where
  "panel_after_uploads =
     (case upload_success (onVideoUploaded \<lparr>video = None, audio = None, job = None\<rparr>)
             ''http://localhost:8080/files/v1'' ''clip.mp4'' of
        Inl e \<Rightarrow> Inl e
      | Inr st \<Rightarrow> upload_success (onAudioUploaded st) ''http://localhost:8080/files/a1'' ''voice.wav'')"

section \<open>Part ranges\<close>

lemma numParts_bounds:
  assumes "0 < cs"
  shows "(numParts fs cs - 1) * cs < fs" "fs \<le> numParts fs cs * cs"
proof -
  let ?n = "numParts fs cs"
  have eq: "?n * cs + (fs + cs - 1) mod cs = fs + cs - 1"
    unfolding numParts_def by simp
  have m: "0 \<le> (fs + cs - 1) mod cs" "(fs + cs - 1) mod cs < cs"
    using assms by simp_all
  show "(?n - 1) * cs < fs" using eq m by (simp add: algebra_simps)
  show "fs \<le> ?n * cs" using eq m by (simp add: algebra_simps)
qed

lemma blob_slice_inside:
  "0 \<le> a \<Longrightarrow> a \<le> b \<Longrightarrow> b \<le> sz \<Longrightarrow> blob_slice sz a b = (a, b)"
  by (simp add: blob_slice_def Let_def)

lemma chunk_inner:
  assumes "0 < cs" "1 \<le> i" "i < numParts (file_size f) cs"
  shows "uploadPart_chunk f cs (presigned_part sign (file_size f) cs i) = ((i - 1) * cs, i * cs)"
proof -
  have "i * cs \<le> (numParts (file_size f) cs - 1) * cs"
    using assms by (intro mult_right_mono) simp_all
  then have le: "i * cs \<le> file_size f"
    using numParts_bounds(1)[OF assms(1), of "file_size f"] by simp
  have s: "0 \<le> (i - 1) * cs" using assms by simp
  have "(i - 1) * cs + cs = i * cs" by (simp add: algebra_simps)
  then show ?thesis using assms le s
    by (simp add: uploadPart_chunk_def presigned_part_def Let_def blob_slice_inside)
qed

lemma chunk_last:
  assumes "0 < cs" "1 \<le> numParts (file_size f) cs" "i = numParts (file_size f) cs"
  shows "uploadPart_chunk f cs (presigned_part sign (file_size f) cs i)
           = ((i - 1) * cs, file_size f)"
proof -
  have lt: "(i - 1) * cs < file_size f"
    using numParts_bounds(1)[OF assms(1), of "file_size f"] assms by simp
  have s: "0 \<le> (i - 1) * cs" using assms by simp
  show ?thesis using assms lt s
    by (simp add: uploadPart_chunk_def presigned_part_def Let_def blob_slice_inside)
qed

lemma tiles_from:
  assumes "0 < cs" "1 \<le> k" "k \<le> numParts (file_size f) cs"
  shows "tiles ((k - 1) * cs)
           (map (\<lambda>i. uploadPart_chunk f cs (presigned_part sign (file_size f) cs i))
              [k..numParts (file_size f) cs])
           (file_size f)"
  using assms
proof (induction "nat (numParts (file_size f) cs - k)" arbitrary: k)
  case 0
  then have k: "k = numParts (file_size f) cs" by simp
  have lt: "(k - 1) * cs < file_size f"
    using numParts_bounds(1)[OF assms(1), of "file_size f"] k by simp
  have "[k..numParts (file_size f) cs] = [k]" using k by (simp add: upto_rec1)
  then show ?case using chunk_last[OF "0.prems"(1) _ k, of sign] "0.prems" k lt by simp
next
  case (Suc n)
  then have klt: "k < numParts (file_size f) cs" by simp
  have u: "[k..numParts (file_size f) cs] = k # [k + 1..numParts (file_size f) cs]"
    using klt by (simp add: upto_rec1)
  have ih: "tiles (k * cs)
              (map (\<lambda>i. uploadPart_chunk f cs (presigned_part sign (file_size f) cs i))
                 [k + 1..numParts (file_size f) cs])
              (file_size f)"
    using Suc.hyps(1)[of "k + 1"] Suc.hyps(2) Suc.prems klt by simp
  have "(k - 1) * cs < k * cs" using Suc.prems(1) by (simp add: algebra_simps)
  then show ?case using chunk_inner[OF Suc.prems(1,2) klt, of sign] ih u by simp
qed

lemma parts_tile:
  assumes "0 < cs" "0 \<le> file_size f"
  shows "tiles 0 (map (uploadPart_chunk f cs) (presigned_parts sign (file_size f) cs))
           (file_size f)"
proof (cases "1 \<le> numParts (file_size f) cs")
  case True
  show ?thesis
    using tiles_from[where k=1 and sign=sign, OF assms(1) _ True]
    by (simp add: presigned_parts_def comp_def)
next
  case False
  then have n: "numParts (file_size f) cs \<le> 0" by simp
  have "file_size f \<le> numParts (file_size f) cs * cs"
    using numParts_bounds(2)[OF assms(1)] .
  also have "\<dots> \<le> 0" using n assms(1) by (simp add: mult_le_0_iff)
  finally have "file_size f = 0" using assms(2) by simp
  moreover have "presigned_parts sign (file_size f) cs = []"
    using n by (simp add: presigned_parts_def)
  ultimately show ?thesis by simp
qed

lemma last_chunk:
  assumes "0 < cs" "presigned_parts sign (file_size f) cs \<noteq> []"
  shows "chunk_bytes (uploadPart_chunk f cs (last (presigned_parts sign (file_size f) cs)))
           = file_size f - (int (length (presigned_parts sign (file_size f) cs)) - 1) * cs"
proof -
  let ?n = "numParts (file_size f) cs"
  have n1: "1 \<le> ?n" using assms(2) by (simp add: presigned_parts_def)
  have len: "int (length (presigned_parts sign (file_size f) cs)) = ?n"
    using n1 by (simp add: presigned_parts_def)
  have "[1..?n] = [1..?n - 1] @ [?n]" using n1 by (simp add: upto_rec2)
  then have "last (presigned_parts sign (file_size f) cs) = presigned_part sign (file_size f) cs ?n"
    by (simp add: presigned_parts_def)
  then show ?thesis
    using chunk_last[OF assms(1) n1 refl, of sign] len by (simp add: chunk_bytes_def)
qed

text \<open>
  Claim C1. For a file of any size and the part descriptors produced for the chunk size
  that the uploader uses, the byte ranges that \<^verbatim>\<open>uploadPart\<close> slices
  (\<open>start = (part_number - 1) * chunkSize\<close>, \<open>end = min (start + size) fileSize\<close>) cover
  \<open>[0, fileSize)\<close> exactly once, with no gap and no overlap, and the last part has
  \<open>fileSize - (numParts - 1) * chunkSize\<close> bytes.
\<close>

theorem uploadPart_ranges_partition:
  assumes "presigned_urls info = presigned_parts sign (file_size f) (chunkSize info)"
    and "0 < chunkSize info"
    and "0 \<le> file_size f"
  shows "tiles 0 (map (uploadPart_chunk f (chunkSize info)) (presigned_urls info)) (file_size f)
       \<and> (presigned_urls info \<noteq> [] \<longrightarrow>
            chunk_bytes (uploadPart_chunk f (chunkSize info) (last (presigned_urls info)))
              = file_size f - (int (length (presigned_urls info)) - 1) * chunkSize info)"
  unfolding assms(1) using parts_tile[OF assms(2,3)] last_chunk[OF assms(2)] by blast

text \<open>
  The example of claim C1: 12 MB in chunks of 5 MB are sent as 5 MB, 5 MB and 2 MB.
\<close>

theorem uploadPart_ranges_partition_witness:
  "presigned_urls demo_info = presigned_parts demo_sign (file_size demo_file) (chunkSize demo_info)
   \<and> 0 < chunkSize demo_info \<and> 0 \<le> file_size demo_file \<and> presigned_urls demo_info \<noteq> []
   \<and> tiles 0 (map (uploadPart_chunk demo_file (chunkSize demo_info)) (presigned_urls demo_info))
        (file_size demo_file)
   \<and> chunk_bytes (uploadPart_chunk demo_file (chunkSize demo_info) (last (presigned_urls demo_info)))
        = file_size demo_file - (int (length (presigned_urls demo_info)) - 1) * chunkSize demo_info
   \<and> map (\<lambda>p. chunk_bytes (uploadPart_chunk demo_file (chunkSize demo_info) p))
        (presigned_urls demo_info)
        = [5 * 1024 * 1024, 5 * 1024 * 1024, 2 * 1024 * 1024]"
proof -
  have h1: "presigned_urls demo_info
              = presigned_parts demo_sign (file_size demo_file) (chunkSize demo_info)"
    by (simp add: demo_info_def demo_file_def chunkSize_def)
  have h2: "0 < chunkSize demo_info" by (simp add: demo_info_def chunkSize_def)
  have h3: "0 \<le> file_size demo_file" by (simp add: demo_file_def)
  have h4: "presigned_urls demo_info \<noteq> []"
    by (simp add: demo_info_def presigned_parts_def numParts_def upto_rec1)
  have sizes: "map (\<lambda>p. chunk_bytes (uploadPart_chunk demo_file (chunkSize demo_info) p))
        (presigned_urls demo_info)
        = [5 * 1024 * 1024, 5 * 1024 * 1024, 2 * 1024 * 1024]"
    by (simp add: demo_info_def demo_file_def chunkSize_def presigned_parts_def presigned_part_def
          numParts_def upto_rec1 uploadPart_chunk_def blob_slice_def chunk_bytes_def Let_def)
  from uploadPart_ranges_partition[OF h1 h2 h3] h1 h2 h3 h4 sizes show ?thesis by blast
qed

section \<open>Requests of the API client\<close>

lemma request_flights:
  "flights (snd (request baseURL srv ep m b n)) =
     flights n @ [\<lparr>request_of = \<lparr>req_method = m, req_url = baseURL @ ep,
                 req_headers = [(''Content-Type'', ''application/json'')],
                 req_body = b, req_cache = None\<rparr>, started = now n,
                 settled = now (snd (request baseURL srv ep m b n))\<rparr>]"
  by (simp add: request_def fetch_def Let_def split: prod.splits)


lemma start_parts_flights:
  "start_parts srv f cs t ps fl = (runs, fl') \<Longrightarrow>
     \<exists>new. fl' = fl @ new
       \<and> map request_of new = map (uploadPart_request f cs) ps
       \<and> (\<forall>x \<in> set new. started x = t \<and> t \<le> settled x)
       \<and> map run_settled runs = map settled new"
proof (induction ps arbitrary: fl runs fl')
  case Nil
  then show ?case by simp
next
  case (Cons p ps)
  let ?req = "uploadPart_request f cs p"
  let ?r = "srv (map request_of fl) ?req"
  let ?x = "\<lparr>request_of = ?req, started = t, settled = t + latency ?r\<rparr>"
  obtain runs0 fl0 where s: "start_parts srv f cs t ps (fl @ [?x]) = (runs0, fl0)"
    by (cases "start_parts srv f cs t ps (fl @ [?x])") auto
  from Cons.IH[OF s] obtain new where new:
    "fl0 = (fl @ [?x]) @ new" "map request_of new = map (uploadPart_request f cs) ps"
    "\<forall>x \<in> set new. started x = t \<and> t \<le> settled x" "map run_settled runs0 = map settled new"
    by blast
  from Cons.prems s have r: "runs = \<lparr>run_part = p, run_settled = t + latency ?r,
        run_result = uploadPart_result p (outcome ?r)\<rparr> # runs0" and f: "fl' = fl0"
    by (simp_all add: Let_def)
  show ?case
    by (rule exI[of _ "?x # new"]) (use new r f in simp)
qed





text \<open>The requests of the loop are the parts from index \<open>i\<close> on, in order and each once,
  up to the end of the batch in which a part fails, or all of them; and they come in
  batches.\<close>

lemma in_batches_Nil [simp]: "in_batches m t []"
  by (subst in_batches.simps) simp

lemma in_batches_last:
  "fl \<noteq> [] \<Longrightarrow> length fl \<le> m \<Longrightarrow> in_batches m t fl = list_all (\<lambda>x. started x = t) fl"
  by (subst in_batches.simps) auto

lemma in_batches_full:
  "fl \<noteq> [] \<Longrightarrow> length fl = m \<Longrightarrow>
     in_batches m t (fl @ rest) =
       (list_all (\<lambda>x. started x = t) fl \<and> in_batches m (fold max (map settled fl) t) rest)"
  by (subst in_batches.simps) auto

lemma upload_batches_schedule:
  "\<exists>new k. flights (snd (upload_batches srv f info i acc n)) = flights n @ new
     \<and> k \<le> length (presigned_urls info) - i
     \<and> map request_of new
         = map (uploadPart_request f (chunkSize info)) (take k (drop i (presigned_urls info)))
     \<and> in_batches (nat (maxConcurrent info)) (now n) new
     \<and> (isl (fst (upload_batches srv f info i acc n))
          \<longrightarrow> 0 < k \<and> (k mod nat (maxConcurrent info) = 0 \<or> k = length (presigned_urls info) - i))
     \<and> (\<not> isl (fst (upload_batches srv f info i acc n)) \<longrightarrow> 0 < maxConcurrent info
          \<longrightarrow> k = length (presigned_urls info) - i)"
proof (induction srv f info i acc n rule: upload_batches.induct)
  case (1 srv f info i acc n)
  let ?ps = "presigned_urls info"
  let ?m = "nat (maxConcurrent info)"
  let ?req = "uploadPart_request f (chunkSize info)"
  show ?case
  proof (cases "i < length ?ps \<and> 0 < maxConcurrent info")
    case False
    have e: "upload_batches srv f info i acc n = (Inr acc, n)"
      by (subst upload_batches.simps, simp only: False if_False)
    show ?thesis
      by (rule exI[of _ "[]"], rule exI[of _ 0]) (use False e in auto)
  next
    case True
    then have m0: "0 < ?m" and i: "i < length ?ps" by simp_all
    let ?batch = "take ?m (drop i ?ps)"
    define b where "b = min ?m (length ?ps - i)"
    have lb: "length ?batch = b" by (simp add: b_def)
    have tb: "take b (drop i ?ps) = ?batch" by (simp add: b_def min_def)
    have b0: "0 < b" using m0 i by (simp add: b_def)
    have bm: "b \<le> ?m" by (simp add: b_def)
    have bl: "b \<le> length ?ps - i" by (simp add: b_def)
    have bk: "b mod ?m = 0 \<or> b = length ?ps - i"
      by (cases "?m \<le> length ?ps - i") (simp_all add: b_def min_def)
    obtain runs fl where sp: "start_parts srv f (chunkSize info) (now n) ?batch (flights n) = (runs, fl)"
      by (cases "start_parts srv f (chunkSize info) (now n) ?batch (flights n)") auto
    from start_parts_flights[OF sp] obtain new0 where new0:
      "fl = flights n @ new0" "map request_of new0 = map ?req ?batch"
      "\<forall>x \<in> set new0. started x = now n \<and> now n \<le> settled x" "map run_settled runs = map settled new0"
      by blast
    have len0: "length new0 = b" using arg_cong[OF new0(2), of length] lb by simp
    have ne0: "new0 \<noteq> []" using len0 b0 by auto
    have st0: "list_all (\<lambda>x. started x = now n) new0" using new0(3) by (simp add: list_all_iff)
    have lem: "length new0 \<le> ?m" using len0 bm by simp
    have ib0: "in_batches ?m (now n) new0" using in_batches_last[OF ne0 lem] st0 by simp
    show ?thesis
    proof (cases "first_rejection runs")
      case (Some te)
      obtain t e where te: "te = (t, e)" by (cases te) auto
      have e: "upload_batches srv f info i acc n = (Inl e, \<lparr>flights = fl, now = t\<rparr>)"
        using True sp Some te by (simp add: upload_batches.simps[of srv f info i acc n])
      have r: "map request_of new0 = map ?req (take b (drop i ?ps))"
        unfolding tb by (rule new0(2))
      show ?thesis
        apply (rule exI[of _ new0], rule exI[of _ b])
        unfolding e using new0(1) r b0 bk bl ib0 by simp
    next
      case None
      let ?n' = "\<lparr>flights = fl, now = fold max (map run_settled runs) (now n)\<rparr>"
      let ?acc' = "record_parts f (chunkSize info) (sort_key run_settled runs) acc"
      have e: "upload_batches srv f info i acc n = upload_batches srv f info (i + ?m) ?acc' ?n'"
        using True sp None by (simp add: upload_batches.simps[of srv f info i acc n])
      from "1.IH"[OF True refl refl sp[symmetric] None] obtain new1 k1 where ih0:
        "flights (snd (upload_batches srv f info (i + ?m) ?acc' ?n')) = flights ?n' @ new1
         \<and> k1 \<le> length ?ps - (i + ?m)
         \<and> map request_of new1 = map ?req (take k1 (drop (i + ?m) ?ps))
         \<and> in_batches ?m (now ?n') new1
         \<and> (isl (fst (upload_batches srv f info (i + ?m) ?acc' ?n'))
               \<longrightarrow> 0 < k1 \<and> (k1 mod ?m = 0 \<or> k1 = length ?ps - (i + ?m)))
         \<and> (\<not> isl (fst (upload_batches srv f info (i + ?m) ?acc' ?n')) \<longrightarrow> 0 < maxConcurrent info
               \<longrightarrow> k1 = length ?ps - (i + ?m))"
        by (elim exE) (rule that, assumption)
      note ih = conjunct1[OF ih0] conjunct1[OF conjunct2[OF ih0]]
        conjunct1[OF conjunct2[OF conjunct2[OF ih0]]]
        conjunct1[OF conjunct2[OF conjunct2[OF conjunct2[OF ih0]]]]
        conjunct1[OF conjunct2[OF conjunct2[OF conjunct2[OF conjunct2[OF ih0]]]]]
        conjunct2[OF conjunct2[OF conjunct2[OF conjunct2[OF conjunct2[OF ih0]]]]]
      have len1: "length new1 = k1"
        using arg_cong[OF ih(3), of length] ih(2) by simp
      have full: "b = ?m \<and> ?m \<le> length ?ps - i" if "0 < k1"
        using that ih(2) by (simp add: b_def)
      have short: "k1 = 0" if "b \<noteq> ?m"
        using that full by auto
      have d: "drop (i + ?m) ?ps = drop ?m (drop i ?ps)" by (simp add: add.commute)
      have tk: "take (b + k1) (drop i ?ps) = ?batch @ take k1 (drop (i + ?m) ?ps)"
      proof (cases "b = ?m")
        case True
        then show ?thesis unfolding d by (simp add: take_add)
      next
        case False
        then have "k1 = 0" by (rule short)
        then show ?thesis using tb by simp
      qed
      have kb: "b + k1 \<le> length ?ps - i"
      proof (cases "0 < k1")
        case True
        then show ?thesis using full ih(2) by simp
      next
        case False
        then show ?thesis using bl by simp
      qed
      have now': "now ?n' = fold max (map settled new0) (now n)" using new0(4) by simp
      have ib: "in_batches ?m (now n) (new0 @ new1)"
      proof (cases "new1 = []")
        case True
        then show ?thesis using ib0 by simp
      next
        case False
        then have "0 < k1" using len1 by auto
        then have "length new0 = ?m" using full len0 by simp
        from in_batches_full[OF ne0 this] st0 ih(4) now' show ?thesis by simp
      qed
      have c1: "isl (fst (upload_batches srv f info i acc n))
           \<longrightarrow> 0 < b + k1 \<and> ((b + k1) mod ?m = 0 \<or> b + k1 = length ?ps - i)"
      proof
        assume "isl (fst (upload_batches srv f info i acc n))"
        then have k1: "0 < k1" "k1 mod ?m = 0 \<or> k1 = length ?ps - (i + ?m)"
          using ih(5) unfolding e by simp_all
        from full[OF k1(1)] have f: "b = ?m" "?m \<le> length ?ps - i" by simp_all
        have "(b + k1) mod ?m = 0 \<or> b + k1 = length ?ps - i"
        proof (rule disjE[OF k1(2)])
          assume "k1 mod ?m = 0"
          then have "(b + k1) mod ?m = 0" unfolding f(1) by simp
          then show ?thesis by (rule disjI1)
        next
          assume "k1 = length ?ps - (i + ?m)"
          then have "b + k1 = length ?ps - i" using f by arith
          then show ?thesis by (rule disjI2)
        qed
        then show "0 < b + k1 \<and> ((b + k1) mod ?m = 0 \<or> b + k1 = length ?ps - i)"
          using k1(1) by simp
      qed
      have c2: "\<not> isl (fst (upload_batches srv f info i acc n)) \<longrightarrow> 0 < maxConcurrent info
           \<longrightarrow> b + k1 = length ?ps - i"
      proof (intro impI)
        assume "\<not> isl (fst (upload_batches srv f info i acc n))" "0 < maxConcurrent info"
        then have k1: "k1 = length ?ps - (i + ?m)" using ih(6) unfolding e by simp
        show "b + k1 = length ?ps - i" using k1 bl bm unfolding b_def by arith
      qed
      have fl: "flights (snd (upload_batches srv f info i acc n)) = flights n @ new0 @ new1"
        unfolding e ih(1) using new0(1) by simp
      have rq: "map request_of (new0 @ new1) = map ?req (take (b + k1) (drop i ?ps))"
        unfolding tk using new0(2) ih(3) by simp
      show ?thesis
        apply (rule exI[of _ "new0 @ new1"], rule exI[of _ "b + k1"])
        using fl rq kb ib c1 c2 by simp
    qed
  qed
qed

lemma request_calls:
  "calls (snd (request baseURL srv ep m b n)) =
     calls n @ [\<lparr>req_method = m, req_url = baseURL @ ep,
                 req_headers = [(''Content-Type'', ''application/json'')],
                 req_body = b, req_cache = None\<rparr>]"
  by (simp add: calls_def request_flights)




lemma first_rejection_None:
  "first_rejection runs = None \<longleftrightarrow> (\<forall>r \<in> set runs. \<not> isl (run_result r))"
  by (induction runs) (auto split: sum.splits option.splits simp: isl_def)

lemma start_parts_results:
  "start_parts srv f cs t ps fl = (runs, fl') \<Longrightarrow>
     length runs = length ps \<and>
     (\<forall>j < length ps. run_result (runs ! j) =
        uploadPart_result (ps ! j)
          (outcome (srv (map request_of fl @ map (uploadPart_request f cs) (take j ps))
                        (uploadPart_request f cs (ps ! j)))))"
proof (induction ps arbitrary: fl runs fl')
  case Nil
  then show ?case by simp
next
  case (Cons p ps)
  let ?req = "uploadPart_request f cs p"
  let ?r = "srv (map request_of fl) ?req"
  let ?x = "\<lparr>request_of = ?req, started = t, settled = t + latency ?r\<rparr>"
  obtain runs0 fl0 where s: "start_parts srv f cs t ps (fl @ [?x]) = (runs0, fl0)"
    by (cases "start_parts srv f cs t ps (fl @ [?x])") auto
  from Cons.prems s have r: "runs = \<lparr>run_part = p, run_settled = t + latency ?r,
        run_result = uploadPart_result p (outcome ?r)\<rparr> # runs0"
    by (simp add: Let_def)
  have ih: "length runs0 = length ps"
    "\<forall>j < length ps. run_result (runs0 ! j) =
        uploadPart_result (ps ! j)
          (outcome (srv (map request_of (fl @ [?x]) @ map (uploadPart_request f cs) (take j ps))
                        (uploadPart_request f cs (ps ! j))))"
    using Cons.IH[OF s] by simp_all
  show ?case
  proof (intro conjI allI impI)
    show "length runs = length (p # ps)" using r ih(1) by simp
  next
    fix j assume j: "j < length (p # ps)"
    show "run_result (runs ! j) =
        uploadPart_result ((p # ps) ! j)
          (outcome (srv (map request_of fl @ map (uploadPart_request f cs) (take j (p # ps)))
                        (uploadPart_request f cs ((p # ps) ! j))))"
    proof (cases j)
      case 0
      then show ?thesis using r by simp
    next
      case (Suc j')
      then have "j' < length ps" using j by simp
      then show ?thesis using ih(2) r Suc by simp
    qed
  qed
qed

lemma upload_batches_calls:
  "\<exists>k. calls (snd (upload_batches srv f info i acc n)) =
         calls n @ map (uploadPart_request f (chunkSize info)) (take k (drop i (presigned_urls info)))"
proof -
  from upload_batches_schedule[of srv f info i acc n] obtain new k where
    "flights (snd (upload_batches srv f info i acc n)) = flights n @ new"
    "map request_of new
       = map (uploadPart_request f (chunkSize info)) (take k (drop i (presigned_urls info)))"
    by blast
  then show ?thesis by (auto simp: calls_def)
qed

lemma upload_batches_fails:
  assumes "j < length (take (nat (maxConcurrent info)) (drop i (presigned_urls info)))"
    and "isl (uploadPart_result (take (nat (maxConcurrent info)) (drop i (presigned_urls info)) ! j)
          (outcome (srv (calls n @ map (uploadPart_request f (chunkSize info))
                                      (take j (take (nat (maxConcurrent info)) (drop i (presigned_urls info)))))
                        (uploadPart_request f (chunkSize info)
                           (take (nat (maxConcurrent info)) (drop i (presigned_urls info)) ! j)))))"
  shows "isl (fst (upload_batches srv f info i acc n))
       \<and> calls (snd (upload_batches srv f info i acc n)) =
           calls n @ map (uploadPart_request f (chunkSize info))
                       (take (nat (maxConcurrent info)) (drop i (presigned_urls info)))"
proof -
  let ?batch = "take (nat (maxConcurrent info)) (drop i (presigned_urls info))"
  have True: "i < length (presigned_urls info) \<and> 0 < maxConcurrent info" using assms(1) by auto
  obtain runs fl where sp: "start_parts srv f (chunkSize info) (now n) ?batch (flights n) = (runs, fl)"
    by (cases "start_parts srv f (chunkSize info) (now n) ?batch (flights n)") auto
  from start_parts_flights[OF sp] obtain new where new:
    "fl = flights n @ new" "map request_of new = map (uploadPart_request f (chunkSize info)) ?batch"
    by blast
  have res: "length runs = length ?batch" "isl (run_result (runs ! j))"
    using start_parts_results[OF sp] assms by (simp_all add: calls_def)
  then have "runs ! j \<in> set runs" using assms(1) by simp
  then have "first_rejection runs \<noteq> None" using res(2) first_rejection_None by blast
  then obtain t e where te: "first_rejection runs = Some (t, e)" by auto
  have "upload_batches srv f info i acc n = (Inl e, \<lparr>flights = fl, now = t\<rparr>)"
    using True sp te by (simp add: upload_batches.simps[of srv f info i acc n])
  then show ?thesis using new by (simp add: calls_def)
qed

lemma upload_no_abort:
  "filter (is_abort_request baseURL) (calls (snd (upload_batches srv f info i acc n))) =
     filter (is_abort_request baseURL) (calls n)"
proof -
  obtain k where "calls (snd (upload_batches srv f info i acc n)) =
         calls n @ map (uploadPart_request f (chunkSize info)) (take k (drop i (presigned_urls info)))"
    using upload_batches_calls by blast
  then show ?thesis
    by (simp add: filter_empty_conv is_abort_request_def uploadPart_request_def)
qed

lemma fetch_calls: "calls (snd (fetch srv req n)) = calls n @ [req]"
  by (simp add: fetch_def calls_def Let_def)

lemma getTusEndpoint_net:
  "snd (getTusEndpoint API srv n) = snd (fetch srv (get_no_store (API @ ''/uploads/tus'')) n)"
  by (simp add: getTusEndpoint_def split: prod.splits)

lemma onPick_net: "snd (onPick API srv files n) = snd (getTusEndpoint API srv n)"
  by (simp add: onPick_def split: prod.splits sum.splits)

section \<open>Concurrency of the part uploads\<close>

text \<open>The schedule of a pipelined pool is pipelined, and it differs from what the loop
  does with the same parts.\<close>

lemma pipelined_schedule_is_pipelined:
  "pipelined pipelined_schedule
   \<and> map (\<lambda>x. (started x, settled x))
        (puts (flights (snd (uploadWithS3Multipart ''http://localhost:8000'' demo_backend
                               demo_file idle))))
       = [(10, 110), (10, 310), (310, 410)]"
  by code_simp




text \<open>When \<^verbatim>\<open>new Array(maxConcurrent)\<close> throws, the upload ends with that error, and the
  initiate request is the only request it has made.\<close>

lemma uploadWithS3Multipart_RangeError:
  assumes "initiateMultipartUpload baseURL (initiate_server be) (file_name f) (file_size f)
             (file_type f) n = (Inr (Value info), n1)"
    and "maxConcurrent info < 0 \<or> 2 ^ 32 \<le> maxConcurrent info"
  shows "uploadWithS3Multipart baseURL be f n = (Inl RangeError, n1)"
  using assms by (auto simp: uploadWithS3Multipart_def uploadParts_def)




section \<open>Failure of the completion call\<close>

lemma uploadParts_no_abort:
  "filter (is_abort_request baseURL) (calls (snd (uploadParts srv f info n))) =
     filter (is_abort_request baseURL) (calls n)"
  by (simp add: uploadParts_def upload_no_abort)

text \<open>
  Claim C3, as stated, fails: when the completion call is answered with status 500 after
  all parts succeeded, the upload ends with that error, and no abort request is among the
  requests it made.
\<close>

theorem completion_failure_no_abort_counterexample:
  "fst (uploadWithS3Multipart ''http://localhost:8000'' failing_complete_backend demo_file idle)
     = Inl (ApiError (FromStatus 500))
   \<and> filter (is_abort_request ''http://localhost:8000'')
        (calls (snd (uploadWithS3Multipart ''http://localhost:8000'' failing_complete_backend demo_file idle))) = []"
  by code_simp

text \<open>
  Claim C3, amended. If the completion call fails after all parts succeeded, the failure
  is fatal: the upload ends with the error of the completion call. No abort request is
  issued: the upload adds no abort request to those made before it, and the completion
  request is its last request.
\<close>

theorem completion_failure_fatal_without_abort:
  assumes "initiateMultipartUpload baseURL (initiate_server be) (file_name f) (file_size f)
             (file_type f) n = (Inr (Value info), n1)"
    and "uploadParts (part_server be) f info n1 = (Inr (ps, completedBytes), n2)"
    and "completeMultipartUpload baseURL (complete_server be) (key info) (upload_id info) ps n2
           = (Inl e, n3)"
  shows "uploadWithS3Multipart baseURL be f n = (Inl e, n3)
       \<and> filter (is_abort_request baseURL) (calls n3) = filter (is_abort_request baseURL) (calls n)
       \<and> (\<exists>r. calls n3 = calls n2 @ [r] \<and> req_url r = baseURL @ ''/uploads/s3/complete'')"
proof -
  have a: "uploadWithS3Multipart baseURL be f n = (Inl e, n3)"
    using assms by (simp add: uploadWithS3Multipart_def)
  have c1: "calls n1 = calls n @ [\<lparr>req_method = ''POST'', req_url = baseURL @ ''/uploads/s3/initiate'',
                 req_headers = [(''Content-Type'', ''application/json'')],
                 req_body = Some (JsonBody (JObj [(''filename'', JStr (file_name f)), (''file_size'', JNum (file_size f)),
                              (''content_type'', JStr (file_type f))])), req_cache = None\<rparr>]"
    using arg_cong[OF assms(1), of snd, symmetric] by (simp add: initiateMultipartUpload_def request_calls)
  have c2: "filter (is_abort_request baseURL) (calls n2) = filter (is_abort_request baseURL) (calls n1)"
    using uploadParts_no_abort[of baseURL "part_server be" f info n1] assms(2) by simp
  have c3: "calls n3 = calls n2 @ [\<lparr>req_method = ''POST'', req_url = baseURL @ ''/uploads/s3/complete'',
                 req_headers = [(''Content-Type'', ''application/json'')],
                 req_body = Some (JsonBody (JObj [(''key'', JStr (key info)), (''upload_id'', JStr (upload_id info)),
                              (''parts'', parts_json ps)])), req_cache = None\<rparr>]"
    using arg_cong[OF assms(3), of snd, symmetric] by (simp add: completeMultipartUpload_def request_calls)
  have b: "filter (is_abort_request baseURL) (calls n3) = filter (is_abort_request baseURL) (calls n)"
    unfolding c3 using c2 unfolding c1 by (simp add: is_abort_request_def)
  show ?thesis using a b c3 by simp
qed

text \<open>The amended claim C3 on the backend whose completion call fails.\<close>

theorem completion_failure_fatal_without_abort_witness:
  "fst (initiateMultipartUpload ''http://localhost:8000'' (initiate_server failing_complete_backend)
          (file_name demo_file) (file_size demo_file) (file_type demo_file) idle)
     = Inr (Value demo_info)
   \<and> fst (uploadParts (part_server failing_complete_backend) demo_file demo_info
            (snd (initiateMultipartUpload ''http://localhost:8000''
                    (initiate_server failing_complete_backend)
                    (file_name demo_file) (file_size demo_file) (file_type demo_file) idle)))
       = Inr ([Some (1, ''etag''), Some (2, ''etag''), Some (3, ''etag'')], 12 * 1024 * 1024)
   \<and> fst (uploadWithS3Multipart ''http://localhost:8000'' failing_complete_backend demo_file idle)
       = Inl (ApiError (FromStatus 500))
   \<and> filter (is_abort_request ''http://localhost:8000'')
        (calls (snd (uploadWithS3Multipart ''http://localhost:8000'' failing_complete_backend
                       demo_file idle))) = []"
proof -
  let ?be = failing_complete_backend
  let ?i = "initiateMultipartUpload ''http://localhost:8000'' (initiate_server ?be)
              (file_name demo_file) (file_size demo_file) (file_type demo_file) idle"
  let ?u = "uploadParts (part_server ?be) demo_file demo_info (snd ?i)"
  let ?ps = "[Some (1, ''etag''), Some (2, ''etag''), Some (3, ''etag'')]"
  let ?c = "completeMultipartUpload ''http://localhost:8000'' (complete_server ?be)
              (key demo_info) (upload_id demo_info) ?ps (snd ?u)"
  have f1: "fst ?i = Inr (Value demo_info)" by code_simp
  have f2: "fst ?u = Inr (?ps, 12 * 1024 * 1024)" by code_simp
  have f3: "fst ?c = Inl (ApiError (FromStatus 500))" by code_simp
  have h1: "?i = (Inr (Value demo_info), snd ?i)" using f1 by (simp add: prod_eq_iff)
  have h2: "?u = (Inr (?ps, 12 * 1024 * 1024), snd ?u)" using f2 by (simp add: prod_eq_iff)
  have h3: "?c = (Inl (ApiError (FromStatus 500)), snd ?c)" using f3 by (simp add: prod_eq_iff)
  have "filter (is_abort_request ''http://localhost:8000'') (calls idle) = []"
    by (simp add: idle_def calls_def)
  with completion_failure_fatal_without_abort[OF h1 h2 h3] f1 f2 show ?thesis by simp
qed

section \<open>One attempt per part\<close>

text \<open>
  Claim C6, as stated, fails: a part whose PUT is answered with 503 is not retried. With
  a backend that answers the first PUT of a part with 503 and every later one with 200,
  the upload fails with the error of part 1 after a single PUT for that part.
\<close>

theorem uploadPart_no_retry_counterexample:
  "fst (uploadWithS3Multipart ''http://localhost:8000'' flaky_backend demo_file idle)
     = Inl (PartUploadFailed 1 ''Service Unavailable'')
   \<and> length (requests_to ''https://s3/part1''
        (calls (snd (uploadWithS3Multipart ''http://localhost:8000'' flaky_backend demo_file idle)))) = 1"
  by code_simp

text \<open>
  Claim C6, amended. \<^verbatim>\<open>uploadPart\<close> sends one PUT per part and never retries: when the PUT
  of a part of the running batch is rejected (a network failure) or answered with any
  status outside 200-299 (5xx and 429 included), the loop ends with an error, and the
  requests it has made are one PUT for each part of that batch and nothing else. The
  delays of 0, 3, 5, 10 and 20 seconds are the \<^verbatim>\<open>retryDelays\<close> that \<^verbatim>\<open>uploadWithTUS\<close> hands
  to the tus client.
\<close>

theorem uploadPart_single_attempt:
  assumes "j < length (take (nat (maxConcurrent info)) (drop i (presigned_urls info)))"
    and "(case outcome (srv (calls n @ map (uploadPart_request f (chunkSize info))
                                      (take j (take (nat (maxConcurrent info)) (drop i (presigned_urls info)))))
                        (uploadPart_request f (chunkSize info)
                           (take (nat (maxConcurrent info)) (drop i (presigned_urls info)) ! j))) of
            Rejected msg \<Rightarrow> True
          | Responded r \<Rightarrow> \<not> ok r)"
  shows "isl (fst (upload_batches srv f info i acc n))
       \<and> calls (snd (upload_batches srv f info i acc n)) =
           calls n @ map (uploadPart_request f (chunkSize info))
                       (take (nat (maxConcurrent info)) (drop i (presigned_urls info)))
       \<and> retryDelays (uploadWithTUS_options f uploadInfo) = [0, 3000, 5000, 10000, 20000]"
proof -
  have "isl (fst (upload_batches srv f info i acc n))
       \<and> calls (snd (upload_batches srv f info i acc n)) =
           calls n @ map (uploadPart_request f (chunkSize info))
                       (take (nat (maxConcurrent info)) (drop i (presigned_urls info)))"
  proof (rule upload_batches_fails[OF assms(1)])
    show "isl (uploadPart_result (take (nat (maxConcurrent info)) (drop i (presigned_urls info)) ! j)
            (outcome (srv (calls n @ map (uploadPart_request f (chunkSize info))
                                        (take j (take (nat (maxConcurrent info))
                                                   (drop i (presigned_urls info)))))
                          (uploadPart_request f (chunkSize info)
                             (take (nat (maxConcurrent info)) (drop i (presigned_urls info)) ! j)))))"
      using assms(2) by (simp add: uploadPart_result_def split: fetch_outcome.splits)
  qed
  then show ?thesis by (simp add: uploadWithTUS_options_def)
qed

text \<open>The amended claim C6 on the backend that answers the first PUT with 503.\<close>

theorem uploadPart_single_attempt_witness:
  "0 < length (take (nat (maxConcurrent demo_info)) (drop 0 (presigned_urls demo_info)))
   \<and> outcome (part_server flaky_backend (calls idle)
                (uploadPart_request demo_file (chunkSize demo_info)
                   (take (nat (maxConcurrent demo_info)) (drop 0 (presigned_urls demo_info)) ! 0)))
       = Responded (respond 503 ''Service Unavailable'' None None)
   \<and> \<not> ok (respond 503 ''Service Unavailable'' None (None :: unit option))
   \<and> isl (fst (upload_batches (part_server flaky_backend) demo_file demo_info 0 ([], 0) idle))
   \<and> calls (snd (upload_batches (part_server flaky_backend) demo_file demo_info 0 ([], 0) idle))
       = calls idle @ map (uploadPart_request demo_file (chunkSize demo_info))
                        (take (nat (maxConcurrent demo_info)) (drop 0 (presigned_urls demo_info)))"
proof -
  let ?batch = "take (nat (maxConcurrent demo_info)) (drop 0 (presigned_urls demo_info))"
  have h1: "0 < length ?batch" by code_simp
  have o: "outcome (part_server flaky_backend (calls idle)
                (uploadPart_request demo_file (chunkSize demo_info) (?batch ! 0)))
       = Responded (respond 503 ''Service Unavailable'' None None)"
    by (simp add: flaky_backend_def demo_backend_def idle_def calls_def after_def)
  have n: "\<not> ok (respond 503 ''Service Unavailable'' None (None :: unit option))"
    by (simp add: ok_def respond_def)
  have h2: "(case outcome (part_server flaky_backend
                     (calls idle @ map (uploadPart_request demo_file (chunkSize demo_info))
                                     (take 0 ?batch))
                     (uploadPart_request demo_file (chunkSize demo_info) (?batch ! 0))) of
               Rejected msg \<Rightarrow> True
             | Responded r \<Rightarrow> \<not> ok r)"
    using o n by simp
  from uploadPart_single_attempt
         [where j = 0 and i = 0 and info = demo_info and srv = "part_server flaky_backend"
            and f = demo_file and n = idle and acc = "([], 0)", OF h1 h2] h1 o n
  show ?thesis by simp
qed

section \<open>Abort and discovery\<close>

text \<open>
  Claim C7, as stated, fails: two requests for an abort are two network calls.
\<close>

theorem abort_twice_counterexample:
  "length (filter (is_abort_request ''http://localhost:8000'')
     (calls (snd (abortMultipartUpload ''http://localhost:8000'' no_content_server
                    ''raw/clip.mp4'' ''u-1''
               (snd (abortMultipartUpload ''http://localhost:8000'' no_content_server
                    ''raw/clip.mp4'' ''u-1'' idle)))))) = 2"
  by code_simp

text \<open>
  Claim C7, amended. Every call of \<^verbatim>\<open>abortMultipartUpload\<close> issues one abort request to the
  backend, whatever was sent before; two calls issue two abort requests.
\<close>

theorem abort_calls_one_request_each:
  "calls (snd (abortMultipartUpload baseURL srv k uploadId n)) =
     calls n @ [\<lparr>req_method = ''POST'',
                 req_url = baseURL @ ''/uploads/s3/abort?key='' @ k @ ''&upload_id='' @ uploadId,
                 req_headers = [(''Content-Type'', ''application/json'')],
                 req_body = None, req_cache = None\<rparr>]
   \<and> length (filter (is_abort_request baseURL)
        (calls (snd (abortMultipartUpload baseURL srv' k uploadId
                      (snd (abortMultipartUpload baseURL srv k uploadId n)))))) =
       length (filter (is_abort_request baseURL) (calls n)) + 2"
  by (simp add: abortMultipartUpload_def request_calls is_abort_request_def)

text \<open>The amended claim C7 on two aborts of the same upload.\<close>

theorem abort_calls_one_request_each_witness:
  "calls (snd (abortMultipartUpload ''http://localhost:8000'' no_content_server
                 ''raw/clip.mp4'' ''u-1'' idle))
     = [\<lparr>req_method = ''POST'',
         req_url = ''http://localhost:8000/uploads/s3/abort?key=raw/clip.mp4&upload_id=u-1'',
         req_headers = [(''Content-Type'', ''application/json'')],
         req_body = None, req_cache = None\<rparr>]"
  using abort_calls_one_request_each
          [of "''http://localhost:8000''" no_content_server "''raw/clip.mp4''" "''u-1''" idle]
  by (simp add: idle_def calls_def)

text \<open>
  Claim C8, as stated, fails: after a discovery that succeeded, the next call of the
  discovery operation fetches again. Two calls of \<^verbatim>\<open>getUploadInfo\<close> that both return the
  capability are two requests; and \<^verbatim>\<open>TusUploader\<close>, which got the endpoint when it was
  mounted, asks for it again at the first pick.
\<close>

theorem discovery_twice_counterexample:
  "fst (getUploadInfo ''http://localhost:8000'' info_server idle) = Inr (Value demo_upload_info)
   \<and> fst (getUploadInfo ''http://localhost:8000'' info_server
            (snd (getUploadInfo ''http://localhost:8000'' info_server idle)))
       = Inr (Value demo_upload_info)
   \<and> length (calls (snd (getUploadInfo ''http://localhost:8000'' info_server
                         (snd (getUploadInfo ''http://localhost:8000'' info_server idle))))) = 2
   \<and> fst (onMount ''http://api'' endpoint_server idle) = Inr (Some (JStr ''http://localhost:8080''))
   \<and> calls (snd (onPick ''http://api'' endpoint_server [demo_file]
                   (snd (onMount ''http://api'' endpoint_server idle))))
       = [get_no_store ''http://api/uploads/tus'', get_no_store ''http://api/uploads/tus'']"
  by code_simp

text \<open>
  Claim C8, amended. The discovery operation keeps no cache: every call of
  \<^verbatim>\<open>getUploadInfo\<close> and every call of \<^verbatim>\<open>getTusEndpoint\<close> issues one request for
  \<^verbatim>\<open>/uploads/tus\<close>, whatever was asked and answered before, so two calls in a row are two
  requests; \<^verbatim>\<open>TusUploader\<close> asks when it is mounted and again at every pick.
\<close>

theorem discovery_fetches_every_time:
  "calls (snd (getUploadInfo baseURL srv n)) =
     calls n @ [\<lparr>req_method = ''GET'', req_url = baseURL @ ''/uploads/tus'',
                 req_headers = [(''Content-Type'', ''application/json'')],
                 req_body = None, req_cache = None\<rparr>]
   \<and> length (calls (snd (getUploadInfo baseURL srv (snd (getUploadInfo baseURL srv n)))))
       = length (calls n) + 2
   \<and> calls (snd (getTusEndpoint API srv' n)) = calls n @ [get_no_store (API @ ''/uploads/tus'')]
   \<and> length (calls (snd (getTusEndpoint API srv' (snd (getTusEndpoint API srv' n)))))
       = length (calls n) + 2
   \<and> calls (snd (onMount API srv' n)) = calls n @ [get_no_store (API @ ''/uploads/tus'')]
   \<and> calls (snd (onPick API srv' files n)) = calls n @ [get_no_store (API @ ''/uploads/tus'')]"
  by (simp add: getUploadInfo_def request_calls getTusEndpoint_net onPick_net onMount_def
        fetch_calls)

text \<open>The amended claim C8 on a backend that answers every discovery: each of the
  operations returns what the backend answered and has made one request.\<close>

theorem discovery_fetches_every_time_witness:
  "fst (getUploadInfo ''http://localhost:8000'' info_server idle) = Inr (Value demo_upload_info)
   \<and> calls (snd (getUploadInfo ''http://localhost:8000'' info_server idle))
     = [\<lparr>req_method = ''GET'', req_url = ''http://localhost:8000/uploads/tus'',
         req_headers = [(''Content-Type'', ''application/json'')],
         req_body = None, req_cache = None\<rparr>]
   \<and> fst (getTusEndpoint ''http://api'' endpoint_server idle)
       = Inr (Some (JStr ''http://localhost:8080''))
   \<and> calls (snd (getTusEndpoint ''http://api'' endpoint_server idle))
       = [get_no_store ''http://api/uploads/tus'']
   \<and> length (calls (snd (getTusEndpoint ''http://api'' endpoint_server
                         (snd (getTusEndpoint ''http://api'' endpoint_server idle))))) = 2"
proof -
  have r1: "fst (getUploadInfo ''http://localhost:8000'' info_server idle)
              = Inr (Value demo_upload_info)"
    by code_simp
  have r2: "fst (getTusEndpoint ''http://api'' endpoint_server idle)
              = Inr (Some (JStr ''http://localhost:8080''))"
    by code_simp
  from discovery_fetches_every_time
          [of "''http://localhost:8000''" info_server idle "''http://api''" endpoint_server]
       r1 r2
  show ?thesis by (simp add: idle_def calls_def)
qed

text \<open>The feature page is the one place that keeps an endpoint: \<^verbatim>\<open>uploadViaTus\<close> makes no
  request when the page has one in its state.\<close>

lemma uploadViaTus_keeps_endpoint:
  "tusEndpoint pg \<noteq> [] \<Longrightarrow> page_net (snd (uploadViaTus env files pg)) = page_net pg"
  by (simp add: uploadViaTus_def Let_def split: sum.splits)

section \<open>The polling loop\<close>

lemma getJob_eq:
  "getJob API srv task_id n =
     (snapshot API srv task_id (calls n) 0, snd (fetch srv (job_request API task_id) n))"
  by (simp add: getJob_def snapshot_def job_request_def fetch_def Let_def split: prod.splits)

lemma snapshot_shift:
  "snapshot API srv task_id (h @ [job_request API task_id]) j = snapshot API srv task_id h (Suc j)"
  by (simp add: snapshot_def replicate_app_Cons_same)

lemma snapshot_later:
  "snapshot API srv task_id (h @ replicate k (job_request API task_id)) 0
     = snapshot API srv task_id h k"
  by (simp add: snapshot_def)

lemma calls_now [simp]: "calls (n\<lparr>now := t\<rparr>) = calls n"
  by (simp add: calls_def)

lemma fetch_flights:
  "flights (snd (fetch srv req n)) =
     flights n @ [\<lparr>request_of = req, started = now n, settled = now (snd (fetch srv req n))\<rparr>]"
  by (simp add: fetch_def Let_def)

lemma spaced_snoc:
  "spaced d (xs @ [x]) = (spaced d xs \<and> (xs \<noteq> [] \<longrightarrow> started x = settled (last xs) + d))"
  by (induction d xs rule: spaced.induct) auto

lemma pending_cases:
  assumes "pending a"
  obtains s st where "a = Inr s" "json_field s ''state'' = Inr st" "\<not> terminal st"
  using assms by (auto simp: pending_def split: sum.splits)

text \<open>The iterations that get an answer whose state is not terminal: one request each,
  the snapshot handed to the callback, and a sleep of 1200 ms.\<close>

lemma pollJob_skip:
  assumes "\<forall>j<k. pending (snapshot API srv task_id (calls (poll_net p)) j)"
  shows "\<exists>q new. pollJob API srv task_id p = pollJob API srv task_id q
     \<and> flights (poll_net q) = flights (poll_net p) @ new
     \<and> map request_of new = replicate k (job_request API task_id)
     \<and> spaced 1200 new
     \<and> now (poll_net q) = (if new = [] then now (poll_net p) else settled (last new) + 1200)
     \<and> events q = events p @ concat (map (\<lambda>j. [OnUpdate (projr (snapshot API srv task_id
                                                      (calls (poll_net p)) j)), SetTimeout 1200])
                                      [0..<k])"
  using assms
proof (induction k)
  case 0
  show ?case by (rule exI[of _ p], rule exI[of _ "[]"]) simp
next
  case (Suc k)
  let ?req = "job_request API task_id"
  let ?a = "snapshot API srv task_id (calls (poll_net p))"
  let ?f = "\<lambda>j. [OnUpdate (projr (?a j)), SetTimeout 1200]"
  have "\<forall>j<k. pending (?a j)" using Suc.prems by simp
  from Suc.IH[OF this] obtain q new where q:
    "pollJob API srv task_id p = pollJob API srv task_id q"
    "flights (poll_net q) = flights (poll_net p) @ new"
    "map request_of new = replicate k ?req"
    "spaced 1200 new"
    "now (poll_net q) = (if new = [] then now (poll_net p) else settled (last new) + 1200)"
    "events q = events p @ concat (map ?f [0..<k])"
    by blast
  have cq: "calls (poll_net q) = calls (poll_net p) @ replicate k ?req"
    using q(2,3) by (simp add: calls_def)
  have "pending (?a k)" using Suc.prems by simp
  then obtain s st where s: "?a k = Inr s" "json_field s ''state'' = Inr st" "\<not> terminal st"
    by (rule pending_cases)
  have s0: "snapshot API srv task_id (calls (poll_net q)) 0 = Inr s"
    unfolding cq snapshot_later by (rule s(1))
  let ?n' = "snd (fetch srv ?req (poll_net q))"
  let ?x = "\<lparr>request_of = ?req, started = now (poll_net q), settled = now ?n'\<rparr>"
  let ?q2 = "\<lparr>poll_net = ?n'\<lparr>now := now ?n' + 1200\<rparr>,
              events = events q @ [OnUpdate s, SetTimeout 1200]\<rparr>"
  have step: "pollJob API srv task_id q = pollJob API srv task_id ?q2"
    using s0 s(2,3) by (subst pollJob.simps) (simp add: getJob_eq)
  have sp: "spaced 1200 (new @ [?x])"
    unfolding spaced_snoc using q(4,5) by simp
  have ev: "events ?q2 = events p @ concat (map ?f [0..<Suc k])"
    using q(6) s(1) by simp
  show ?case
    apply (rule exI[of _ ?q2], rule exI[of _ "new @ [?x]"])
    using q(1) step q(2,3) sp ev by (simp add: fetch_flights replicate_append_same)
qed

text \<open>The loop ends at the first answer that does not make it sleep: normally when the
  state is terminal, and with an exception when the request has failed, the body is not
  JSON or the state cannot be read.\<close>

lemma pollJob_end:
  assumes "\<forall>j<k. pending (snapshot API srv task_id (calls (poll_net p)) j)"
    and "\<not> pending (snapshot API srv task_id (calls (poll_net p)) k)"
  shows "\<exists>r p' new. pollJob API srv task_id p = Some (r, p')
     \<and> flights (poll_net p') = flights (poll_net p) @ new
     \<and> map request_of new = replicate (Suc k) (job_request API task_id)
     \<and> spaced 1200 new
     \<and> events p' = events p @ concat (map (\<lambda>j. [OnUpdate (projr (snapshot API srv task_id
                                                      (calls (poll_net p)) j)), SetTimeout 1200])
                                      [0..<k])
                     @ (case snapshot API srv task_id (calls (poll_net p)) k of
                          Inl e \<Rightarrow> [] | Inr s \<Rightarrow> [OnUpdate s])
     \<and> r = (case snapshot API srv task_id (calls (poll_net p)) k of
              Inl e \<Rightarrow> Some e
            | Inr s \<Rightarrow> (case json_field s ''state'' of Inl e \<Rightarrow> Some e | Inr st \<Rightarrow> None))
     \<and> (r = None) = finished (snapshot API srv task_id (calls (poll_net p)) k)"
proof -
  let ?req = "job_request API task_id"
  let ?a = "snapshot API srv task_id (calls (poll_net p))"
  let ?f = "\<lambda>j. [OnUpdate (projr (?a j)), SetTimeout 1200]"
  from pollJob_skip[OF assms(1)] obtain q new where q:
    "pollJob API srv task_id p = pollJob API srv task_id q"
    "flights (poll_net q) = flights (poll_net p) @ new"
    "map request_of new = replicate k ?req"
    "spaced 1200 new"
    "now (poll_net q) = (if new = [] then now (poll_net p) else settled (last new) + 1200)"
    "events q = events p @ concat (map ?f [0..<k])"
    by blast
  have cq: "calls (poll_net q) = calls (poll_net p) @ replicate k ?req"
    using q(2,3) by (simp add: calls_def)
  have s0: "snapshot API srv task_id (calls (poll_net q)) 0 = ?a k"
    unfolding cq snapshot_later ..
  let ?n' = "snd (fetch srv ?req (poll_net q))"
  let ?x = "\<lparr>request_of = ?req, started = now (poll_net q), settled = now ?n'\<rparr>"
  have sp: "spaced 1200 (new @ [?x])"
    unfolding spaced_snoc using q(4,5) by simp
  have fl: "flights ?n' = flights (poll_net p) @ (new @ [?x])"
    using q(2) by (simp add: fetch_flights)
  have rq: "map request_of (new @ [?x]) = replicate (Suc k) ?req"
    using q(3) by (simp add: replicate_append_same)
  show ?thesis
  proof (cases "?a k")
    case (Inl e)
    have "pollJob API srv task_id q = Some (Some e, q\<lparr>poll_net := ?n'\<rparr>)"
      using s0 Inl by (subst pollJob.simps) (simp add: getJob_eq)
    then show ?thesis
      apply (intro exI[of _ "Some e"] exI[of _ "q\<lparr>poll_net := ?n'\<rparr>"] exI[of _ "new @ [?x]"])
      using q(1,6) fl rq sp Inl by (simp add: finished_def)
  next
    case (Inr s)
    let ?p' = "\<lparr>poll_net = ?n', events = events q @ [OnUpdate s]\<rparr>"
    show ?thesis
    proof (cases "json_field s ''state''")
      case (Inl e)
      have "pollJob API srv task_id q = Some (Some e, ?p')"
        using s0 Inr Inl by (subst pollJob.simps) (simp add: getJob_eq)
      then show ?thesis
        apply (intro exI[of _ "Some e"] exI[of _ ?p'] exI[of _ "new @ [?x]"])
        using q(1,6) fl rq sp Inr Inl by (simp add: finished_def)
    next
      case st: (Inr st)
      have t: "terminal st" using assms(2) Inr st by (simp add: pending_def)
      have "pollJob API srv task_id q = Some (None, ?p')"
        using s0 Inr st t by (subst pollJob.simps) (simp add: getJob_eq)
      then show ?thesis
        apply (intro exI[of _ None] exI[of _ ?p'] exI[of _ "new @ [?x]"])
        using q(1,6) fl rq sp Inr st t by (simp add: finished_def)
    qed
  qed
qed

lemma pollJob_returns_only_after_an_end:
  "pollJob API srv task_id p = Some y \<Longrightarrow>
     \<exists>j. \<not> pending (snapshot API srv task_id (calls (poll_net p)) j)"
  apply (erule pollJob.raw_induct
           [rotated, where P = "\<lambda>API srv task_id p y.
                         \<exists>j. \<not> pending (snapshot API srv task_id (calls (poll_net p)) j)"])
  subgoal premises prems for pollJob' API srv task_id p y
  proof (cases "pending (snapshot API srv task_id (calls (poll_net p)) 0)")
    case False
    then show ?thesis by blast
  next
    case True
    then obtain s st where s: "snapshot API srv task_id (calls (poll_net p)) 0 = Inr s"
      "json_field s ''state'' = Inr st" "\<not> terminal st"
      by (rule pending_cases)
    let ?n' = "snd (fetch srv (job_request API task_id) (poll_net p))"
    let ?p2 = "\<lparr>poll_net = ?n'\<lparr>now := now ?n' + 1200\<rparr>, events = events p @ [OnUpdate s, SetTimeout 1200]\<rparr>"
    have "pollJob' API srv task_id ?p2 = Some y"
      using prems(2) s by (simp add: getJob_eq)
    from prems(1)[OF this] obtain j where
      "\<not> pending (snapshot API srv task_id (calls (poll_net ?p2)) j)" by blast
    then have "\<not> pending (snapshot API srv task_id (calls (poll_net p)) (Suc j))"
      by (simp add: fetch_calls snapshot_shift)
    then show ?thesis by blast
  qed
  done

text \<open>Answers that never report a terminal state, and never fail, keep the loop
  polling.\<close>

lemma pollJob_polls_forever:
  assumes "\<forall>j. pending (snapshot API srv task_id (calls (poll_net p)) j)"
  shows "pollJob API srv task_id p = None"
proof (cases "pollJob API srv task_id p")
  case None
  then show ?thesis .
next
  case (Some y)
  from pollJob_returns_only_after_an_end[OF this] assms show ?thesis by blast
qed

lemma updates_append: "updates (xs @ ys) = updates xs @ updates ys"
  by (simp add: updates_def)

lemma updates_run:
  "updates (concat (map (\<lambda>j. [OnUpdate (g j), SetTimeout 1200]) [0..<k])) = map g [0..<k]"
  by (induction k) (simp_all add: updates_def)

text \<open>
  Claim C4, as stated, fails for answers that are not snapshots: the loop also ends when
  no terminal state was reported. When the first status request is answered with a 502
  whose body is not JSON, \<^verbatim>\<open>pollJob\<close> ends with the error of \<^verbatim>\<open>r.json()\<close> after that one
  request; it has handed nothing to the callback, and it never asks again, although the
  job is done at the next request.
\<close>

theorem pollJob_ends_without_terminal_counterexample:
  "\<not> finished (snapshot ''http://api'' bad_gateway_server ''t1'' [] 0)
   \<and> finished (snapshot ''http://api'' bad_gateway_server ''t1'' [] 1)
   \<and> map_option (\<lambda>(r, p). (r, calls (poll_net p), events p))
        (pollJob ''http://api'' bad_gateway_server ''t1'' \<lparr>poll_net = idle, events = []\<rparr>)
       = Some (Some JsonError, [job_request ''http://api'' ''t1''], [])"
  apply (subst pollJob.simps)
  apply (simp add: getJob_def fetch_def bad_gateway_server_def after_def respond_def r_json_def
           idle_def calls_def json_field_def terminal_def get_no_store_def job_request_def
           snapshot_def finished_def)
  done

text \<open>
  Claim C4, amended. Whatever the backend answers to the status requests, \<^verbatim>\<open>pollJob\<close>
  makes one status request per iteration and hands every body that parses to the
  callback. It stops at the first answer \<open>k\<close> that is not a snapshot with a state that is
  not terminal, after exactly \<open>k + 1\<close> requests, each of which starts 1200 ms after the
  one before it has settled: it ends normally if and only if that answer reports
  \<^verbatim>\<open>SUCCESS\<close> or \<^verbatim>\<open>FAILURE\<close>, and with an exception when the request has failed or the body
  is not JSON (nothing is handed to the callback then) or is \<^verbatim>\<open>null\<close> (which is handed to
  the callback first). When no such answer ever comes, the loop polls forever.
\<close>

theorem pollJob_ends_at_first_terminal_or_error:
  "((\<forall>j. pending (snapshot API srv task_id (calls (poll_net p)) j))
      \<longrightarrow> pollJob API srv task_id p = None)
   \<and> (\<forall>k. (\<forall>j<k. pending (snapshot API srv task_id (calls (poll_net p)) j))
            \<and> \<not> pending (snapshot API srv task_id (calls (poll_net p)) k)
        \<longrightarrow> (\<exists>r p' new. pollJob API srv task_id p = Some (r, p')
               \<and> flights (poll_net p') = flights (poll_net p) @ new
               \<and> map request_of new = replicate (Suc k) (job_request API task_id)
               \<and> spaced 1200 new
               \<and> events p' = events p
                    @ concat (map (\<lambda>j. [OnUpdate (projr (snapshot API srv task_id
                                                            (calls (poll_net p)) j)),
                                         SetTimeout 1200]) [0..<k])
                    @ (case snapshot API srv task_id (calls (poll_net p)) k of
                         Inl e \<Rightarrow> [] | Inr s \<Rightarrow> [OnUpdate s])
               \<and> r = (case snapshot API srv task_id (calls (poll_net p)) k of
                        Inl e \<Rightarrow> Some e
                      | Inr s \<Rightarrow> (case json_field s ''state'' of
                                   Inl e \<Rightarrow> Some e | Inr st \<Rightarrow> None))
               \<and> (r = None) = finished (snapshot API srv task_id (calls (poll_net p)) k)))"
proof (intro conjI impI allI)
  assume "\<forall>j. pending (snapshot API srv task_id (calls (poll_net p)) j)"
  then show "pollJob API srv task_id p = None" by (rule pollJob_polls_forever)
next
  fix k
  assume "(\<forall>j<k. pending (snapshot API srv task_id (calls (poll_net p)) j))
            \<and> \<not> pending (snapshot API srv task_id (calls (poll_net p)) k)"
  then have a: "\<forall>j<k. pending (snapshot API srv task_id (calls (poll_net p)) j)"
    and b: "\<not> pending (snapshot API srv task_id (calls (poll_net p)) k)" by simp_all
  show "\<exists>r p' new. pollJob API srv task_id p = Some (r, p')
               \<and> flights (poll_net p') = flights (poll_net p) @ new
               \<and> map request_of new = replicate (Suc k) (job_request API task_id)
               \<and> spaced 1200 new
               \<and> events p' = events p
                    @ concat (map (\<lambda>j. [OnUpdate (projr (snapshot API srv task_id
                                                            (calls (poll_net p)) j)),
                                         SetTimeout 1200]) [0..<k])
                    @ (case snapshot API srv task_id (calls (poll_net p)) k of
                         Inl e \<Rightarrow> [] | Inr s \<Rightarrow> [OnUpdate s])
               \<and> r = (case snapshot API srv task_id (calls (poll_net p)) k of
                        Inl e \<Rightarrow> Some e
                      | Inr s \<Rightarrow> (case json_field s ''state'' of
                                   Inl e \<Rightarrow> Some e | Inr st \<Rightarrow> None))
               \<and> (r = None) = finished (snapshot API srv task_id (calls (poll_net p)) k)"
    by (rule pollJob_end[OF a b])
qed

text \<open>The amended claim C4 on a job that is started at the first poll and done at the
  second, and on a job that never leaves the state \<^verbatim>\<open>STARTED\<close>.\<close>

theorem pollJob_ends_at_first_terminal_or_error_witness:
  "pending (snapshot ''http://api'' demo_status_server ''t1'' [] 0)
   \<and> \<not> pending (snapshot ''http://api'' demo_status_server ''t1'' [] 1)
   \<and> finished (snapshot ''http://api'' demo_status_server ''t1'' [] 1)
   \<and> (\<exists>p' new.
         pollJob ''http://api'' demo_status_server ''t1'' \<lparr>poll_net = idle, events = []\<rparr>
           = Some (None, p')
         \<and> flights (poll_net p') = new
         \<and> map request_of new = replicate 2 (job_request ''http://api'' ''t1'')
         \<and> spaced 1200 new
         \<and> events p' = [OnUpdate (JObj [(''state'', JStr ''STARTED'')]), SetTimeout 1200,
                         OnUpdate (JObj [(''state'', JStr ''SUCCESS'')])])
   \<and> (\<forall>j. pending (snapshot ''http://api'' stuck_status_server ''t1'' [] j))
   \<and> pollJob ''http://api'' stuck_status_server ''t1'' \<lparr>poll_net = idle, events = []\<rparr> = None"
proof -
  let ?p = "\<lparr>poll_net = idle, events = []\<rparr>"
  let ?a = "snapshot ''http://api'' demo_status_server ''t1''"
  have c: "calls (poll_net ?p) = []" by (simp add: idle_def calls_def)
  have a0: "?a [] 0 = Inr (JObj [(''state'', JStr ''STARTED'')])"
    by (simp add: snapshot_def demo_status_server_def after_def respond_def r_json_def)
  have a1: "?a [] 1 = Inr (JObj [(''state'', JStr ''SUCCESS'')])"
    by (simp add: snapshot_def demo_status_server_def after_def respond_def r_json_def)
  have p0: "pending (?a [] 0)" unfolding a0 by (simp add: pending_def json_field_def terminal_def)
  have p1: "\<not> pending (?a [] 1)" unfolding a1 by (simp add: pending_def json_field_def terminal_def)
  have f1: "finished (?a [] 1)" unfolding a1 by (simp add: finished_def json_field_def terminal_def)
  have h: "(\<forall>j<1. pending (?a (calls (poll_net ?p)) j)) \<and> \<not> pending (?a (calls (poll_net ?p)) 1)"
    unfolding c using p0 p1 by simp
  have s: "\<forall>j. pending (snapshot ''http://api'' stuck_status_server ''t1'' (calls (poll_net ?p)) j)"
    by (simp add: snapshot_def stuck_status_server_def after_def respond_def r_json_def
          pending_def json_field_def terminal_def)
  note T = pollJob_ends_at_first_terminal_or_error
             [of "''http://api''" demo_status_server "''t1''" ?p]
  note S = pollJob_ends_at_first_terminal_or_error
             [of "''http://api''" stuck_status_server "''t1''" ?p]
  have never: "pollJob ''http://api'' stuck_status_server ''t1'' ?p = None"
    by (rule conjunct1[OF S, THEN mp, OF s])
  from conjunct2[OF T, THEN spec, THEN mp, OF h] obtain r p' new where r0:
    "pollJob ''http://api'' demo_status_server ''t1'' ?p = Some (r, p')
     \<and> flights (poll_net p') = flights (poll_net ?p) @ new
     \<and> map request_of new = replicate (Suc 1) (job_request ''http://api'' ''t1'')
     \<and> spaced 1200 new
     \<and> events p' = events ?p
        @ concat (map (\<lambda>j. [OnUpdate (projr (?a (calls (poll_net ?p)) j)), SetTimeout 1200]) [0..<1])
        @ (case ?a (calls (poll_net ?p)) 1 of Inl e \<Rightarrow> [] | Inr s \<Rightarrow> [OnUpdate s])
     \<and> r = (case ?a (calls (poll_net ?p)) 1 of
              Inl e \<Rightarrow> Some e
            | Inr s \<Rightarrow> (case json_field s ''state'' of Inl e \<Rightarrow> Some e | Inr st \<Rightarrow> None))
     \<and> (r = None) = finished (?a (calls (poll_net ?p)) 1)"
    by (elim exE) (rule that, assumption)
  note r = conjunct1[OF r0] conjunct1[OF conjunct2[OF r0]]
    conjunct1[OF conjunct2[OF conjunct2[OF r0]]]
    conjunct1[OF conjunct2[OF conjunct2[OF conjunct2[OF r0]]]]
    conjunct1[OF conjunct2[OF conjunct2[OF conjunct2[OF conjunct2[OF r0]]]]]
    conjunct2[OF conjunct2[OF conjunct2[OF conjunct2[OF conjunct2[OF conjunct2[OF r0]]]]]]
  have rn: "r = None" using r(6) f1 unfolding c by simp
  have ev: "events p' = [OnUpdate (JObj [(''state'', JStr ''STARTED'')]), SetTimeout 1200,
                         OnUpdate (JObj [(''state'', JStr ''SUCCESS'')])]"
    using r(5) unfolding c a1 by (simp add: a0)
  have fl: "flights (poll_net p') = new" using r(2) by (simp add: idle_def)
  have rq: "map request_of new = replicate 2 (job_request ''http://api'' ''t1'')"
    using r(3) by (simp add: eval_nat_numeral)
  have "\<exists>p' new.
         pollJob ''http://api'' demo_status_server ''t1'' ?p = Some (None, p')
         \<and> flights (poll_net p') = new
         \<and> map request_of new = replicate 2 (job_request ''http://api'' ''t1'')
         \<and> spaced 1200 new
         \<and> events p' = [OnUpdate (JObj [(''state'', JStr ''STARTED'')]), SetTimeout 1200,
                         OnUpdate (JObj [(''state'', JStr ''SUCCESS'')])]"
    using r(1,4) rn ev fl rq by blast
  moreover have "\<forall>j. pending (snapshot ''http://api'' stuck_status_server ''t1'' [] j)"
    using s unfolding c .
  ultimately show ?thesis using p0 p1 f1 never by simp
qed

section \<open>Updates of the job list\<close>

lemma json_field_not_null: "s \<noteq> JNull \<Longrightarrow> \<exists>v. json_field s k = Inr v"
  by (cases s) (simp_all add: json_field_def)

lemma update_entry_twice:
  "update_entry tid st' res' err' (update_entry tid st res err x) = update_entry tid st' res' err' x"
  by (simp add: update_entry_def)

lemma onUpdate_object:
  assumes "json_field s ''state'' = Inr st" "json_field s ''result'' = Inr res"
    "json_field s ''error'' = Inr err"
  shows "onUpdate tid s js = Inr (map (update_entry tid st res err) js)"
proof (cases "list_all (\<lambda>x. job_id x \<noteq> tid) js")
  case True
  then have "map (update_entry tid st res err) js = js"
    by (intro map_idI) (auto simp: list_all_iff update_entry_def)
  then show ?thesis using True by (simp add: onUpdate_def)
next
  case False
  then show ?thesis using assms by (simp add: onUpdate_def)
qed

text \<open>The updates of snapshots that are not \<^verbatim>\<open>null\<close> leave every entry of the task with
  the state, the result and the error of the last snapshot.\<close>

lemma apply_updates_last:
  assumes "xs \<noteq> []" "\<forall>s \<in> set xs. s \<noteq> JNull"
    and "json_field (last xs) ''state'' = Inr st" "json_field (last xs) ''result'' = Inr res"
    "json_field (last xs) ''error'' = Inr err"
  shows "apply_updates tid xs (map (update_entry tid a b c) js)
           = Inr (map (update_entry tid st res err) js)
       \<and> apply_updates tid xs js = Inr (map (update_entry tid st res err) js)"
  using assms
proof (induction xs arbitrary: a b c js)
  case Nil
  then show ?case by simp
next
  case (Cons s xs)
  from Cons.prems(2) have "s \<noteq> JNull" by simp
  then obtain st0 res0 err0 where f: "json_field s ''state'' = Inr st0"
    "json_field s ''result'' = Inr res0" "json_field s ''error'' = Inr err0"
    using json_field_not_null by blast
  note u = onUpdate_object[OF f]
  show ?case
  proof (cases "xs = []")
    case True
    then have "st0 = st" "res0 = res" "err0 = err" using f Cons.prems(3,4,5) by simp_all
    then show ?thesis using True u by (simp add: update_entry_twice comp_def)
  next
    case False
    then have l: "json_field (last xs) ''state'' = Inr st" "json_field (last xs) ''result'' = Inr res"
      "json_field (last xs) ''error'' = Inr err" using Cons.prems(3,4,5) by simp_all
    have n: "\<forall>s \<in> set xs. s \<noteq> JNull" using Cons.prems(2) by simp
    from Cons.IH[OF False n l] show ?thesis
      using u by (simp add: update_entry_twice comp_def)
  qed
qed

text \<open>
  Claim C5, as stated, fails: \<^verbatim>\<open>pollJob\<close> has no cancellation flag. When the tracking of
  a job is cancelled after the first answer, the loop still makes the second status
  request and hands its snapshot to the callback, and the update that the callback queues
  writes the state of that snapshot to the entry of the job.
\<close>

theorem pollJob_emits_after_cancel_counterexample:
  "emitted_after 1 (pollJob ''http://api'' demo_status_server ''t1'' \<lparr>poll_net = idle, events = []\<rparr>)
     = Some [JObj [(''state'', JStr ''SUCCESS'')]]
   \<and> map_option (map_sum (\<lambda>e. e) (map (\<lambda>x. (job_id x, job_status x))))
        (written_after 1 (Some (JStr ''t1'')) demo_jobs
           (pollJob ''http://api'' demo_status_server ''t1'' \<lparr>poll_net = idle, events = []\<rparr>))
       = Some (Inr [(Some (JStr ''t1''), Some (JStr ''SUCCESS'')),
                    (Some (JStr ''t2''), Some (JStr ''STARTED''))])"
  apply (subst pollJob.simps)
  apply (simp add: getJob_def fetch_def demo_status_server_def after_def respond_def r_json_def
           idle_def calls_def json_field_def terminal_def get_no_store_def)
  apply (subst pollJob.simps)
  apply (simp add: getJob_def fetch_def demo_status_server_def after_def respond_def r_json_def
           idle_def calls_def json_field_def terminal_def get_no_store_def emitted_after_def
           updates_def written_after_def)
  apply (subst pollJob.simps)
  apply (simp add: getJob_def fetch_def demo_status_server_def after_def respond_def r_json_def
           idle_def calls_def json_field_def terminal_def get_no_store_def emitted_after_def
           updates_def written_after_def)
  apply (subst pollJob.simps)
  apply (simp add: getJob_def fetch_def demo_status_server_def after_def respond_def r_json_def
           idle_def calls_def json_field_def terminal_def get_no_store_def emitted_after_def
           updates_def written_after_def onUpdate_def update_entry_def demo_jobs_def)
  done

text \<open>
  Claim C5, amended. \<^verbatim>\<open>pollJob\<close> keeps no cancellation flag and nothing is checked before
  a state update: in a run whose answer \<open>k\<close> is the first terminal one, whatever the
  number \<open>c \<le> k\<close> of answers after which the tracking was cancelled, the snapshots of the
  answers \<open>c\<close> to \<open>k\<close> are all handed to the callback, and the updates that the callback
  queues for them leave every entry of the task, in whatever job list they are applied
  to, with the state, the result and the error of the terminal snapshot.
\<close>

theorem pollJob_emits_every_snapshot:
  assumes "\<forall>j<k. snapshot API srv task_id (calls (poll_net p)) j = Inr (ss j) \<and> pending (Inr (ss j))"
    and "snapshot API srv task_id (calls (poll_net p)) k = Inr (ss k)"
    and "finished (Inr (ss k))"
    and "events p = []" and "c \<le> k"
  shows "emitted_after c (pollJob API srv task_id p) = Some (map ss [c..<Suc k])
       \<and> map ss [c..<Suc k] \<noteq> []
       \<and> (\<exists>st res err.
             json_field (ss k) ''state'' = Inr st \<and> json_field (ss k) ''result'' = Inr res
             \<and> json_field (ss k) ''error'' = Inr err
             \<and> written_after c (Some (JStr task_id)) js (pollJob API srv task_id p)
                 = Some (Inr (map (update_entry (Some (JStr task_id)) st res err) js)))"
proof -
  let ?a = "snapshot API srv task_id (calls (poll_net p))"
  have pe: "\<forall>j<k. pending (?a j)" using assms(1) by simp
  have np: "\<not> pending (?a k)"
    using assms(2,3) by (auto simp: pending_def finished_def split: sum.splits)
  from pollJob_end[OF pe np] obtain r p' where p':
    "pollJob API srv task_id p = Some (r, p')"
    "events p' = events p @ concat (map (\<lambda>j. [OnUpdate (projr (?a j)), SetTimeout 1200]) [0..<k])
                     @ (case ?a k of Inl e \<Rightarrow> [] | Inr s \<Rightarrow> [OnUpdate s])"
    by blast
  have "updates (events p') = map (\<lambda>j. projr (?a j)) [0..<k] @ [ss k]"
    unfolding p'(2) assms(2,4) by (simp add: updates_append updates_run) (simp add: updates_def)
  moreover have "map (\<lambda>j. projr (?a j)) [0..<k] = map ss [0..<k]"
    using assms(1) by simp
  ultimately have "updates (events p') = map ss [0..<Suc k]" by simp
  then have d: "drop c (updates (events p')) = map ss [c..<Suc k]"
    by (simp only: drop_map drop_upt) simp
  have ne: "map ss [c..<Suc k] \<noteq> []" using assms(5) by simp
  have la: "last (map ss [c..<Suc k]) = ss k" using assms(5) by (simp add: last_map)
  have nn: "ss j \<noteq> JNull" if "j \<le> k" for j
  proof (cases "j = k")
    case True
    then show ?thesis using assms(3) by (auto simp: finished_def json_field_def)
  next
    case False
    then have "pending (Inr (ss j))" using assms(1) that by simp
    then show ?thesis by (auto simp: pending_def json_field_def)
  qed
  then have all: "\<forall>s \<in> set (map ss [c..<Suc k]). s \<noteq> JNull" by auto
  from nn[of k] obtain st res err where f: "json_field (ss k) ''state'' = Inr st"
    "json_field (ss k) ''result'' = Inr res" "json_field (ss k) ''error'' = Inr err"
    using json_field_not_null by blast
  have "apply_updates (Some (JStr task_id)) (map ss [c..<Suc k]) js
          = Inr (map (update_entry (Some (JStr task_id)) st res err) js)"
    using apply_updates_last[OF ne all, where tid = "Some (JStr task_id)" and js = js] f
    unfolding la by blast
  then have w: "written_after c (Some (JStr task_id)) js (pollJob API srv task_id p)
                 = Some (Inr (map (update_entry (Some (JStr task_id)) st res err) js))"
    using p'(1) d by (simp add: written_after_def)
  have e: "emitted_after c (pollJob API srv task_id p) = Some (map ss [c..<Suc k])"
    using p'(1) d by (simp add: emitted_after_def)
  show ?thesis using e ne w f by blast
qed

text \<open>The amended claim C5 on a job that is pending at the first poll, started at the
  second and done at the third, when the tracking is cancelled after the first answer:
  the two later snapshots are handed to the callback, and the entry of the job ends with
  the state and the result of the last one.\<close>

theorem pollJob_emits_every_snapshot_witness:
  "snapshot ''http://api'' slow_status_server ''t1'' [] 0 = Inr (JObj [(''state'', JStr ''PENDING'')])
   \<and> pending (Inr (JObj [(''state'', JStr ''PENDING'')]))
   \<and> snapshot ''http://api'' slow_status_server ''t1'' [] 1 = Inr (JObj [(''state'', JStr ''STARTED'')])
   \<and> pending (Inr (JObj [(''state'', JStr ''STARTED'')]))
   \<and> snapshot ''http://api'' slow_status_server ''t1'' [] 2
       = Inr (JObj [(''state'', JStr ''SUCCESS''), (''result'', JStr ''s3://out/t1'')])
   \<and> finished (Inr (JObj [(''state'', JStr ''SUCCESS''), (''result'', JStr ''s3://out/t1'')]))
   \<and> emitted_after 1 (pollJob ''http://api'' slow_status_server ''t1''
                         \<lparr>poll_net = idle, events = []\<rparr>)
       = Some [JObj [(''state'', JStr ''STARTED'')],
               JObj [(''state'', JStr ''SUCCESS''), (''result'', JStr ''s3://out/t1'')]]
   \<and> written_after 1 (Some (JStr ''t1'')) demo_jobs
        (pollJob ''http://api'' slow_status_server ''t1'' \<lparr>poll_net = idle, events = []\<rparr>)
       = Some (Inr (map (update_entry (Some (JStr ''t1'')) (Some (JStr ''SUCCESS''))
                           (Some (JStr ''s3://out/t1'')) None) demo_jobs))
   \<and> map (\<lambda>x. (job_id x, job_status x, job_result x))
        (map (update_entry (Some (JStr ''t1'')) (Some (JStr ''SUCCESS''))
                (Some (JStr ''s3://out/t1'')) None) demo_jobs)
       = [(Some (JStr ''t1''), Some (JStr ''SUCCESS''), Some (JStr ''s3://out/t1'')),
          (Some (JStr ''t2''), Some (JStr ''STARTED''), None)]"
proof -
  let ?ss = "\<lambda>j::nat. if j = 0 then JObj [(''state'', JStr ''PENDING'')]
                      else if j = 1 then JObj [(''state'', JStr ''STARTED'')]
                      else JObj [(''state'', JStr ''SUCCESS''), (''result'', JStr ''s3://out/t1'')]"
  let ?p = "\<lparr>poll_net = idle, events = []\<rparr>"
  let ?a = "snapshot ''http://api'' slow_status_server ''t1''"
  have c: "calls (poll_net ?p) = []" by (simp add: idle_def calls_def)
  have a: "?a [] j = Inr (?ss j)" for j
    by (simp add: snapshot_def slow_status_server_def after_def respond_def r_json_def)
  have pd: "pending (Inr (?ss 0))" "pending (Inr (?ss 1))"
    by (simp_all add: pending_def json_field_def terminal_def)
  have fi: "finished (Inr (?ss 2))"
    by (simp add: finished_def json_field_def terminal_def)
  have h1: "\<forall>j<2. ?a (calls (poll_net ?p)) j = Inr (?ss j) \<and> pending (Inr (?ss j))"
    unfolding c using a pd by (auto simp: less_2_cases_iff)
  have h2: "?a (calls (poll_net ?p)) 2 = Inr (?ss 2)" unfolding c by (rule a)
  have h4: "events ?p = []" by simp
  have h5: "(1::nat) \<le> 2" by simp
  from pollJob_emits_every_snapshot[OF h1 h2 fi h4 h5, of demo_jobs] obtain st res err where r:
    "emitted_after 1 (pollJob ''http://api'' slow_status_server ''t1'' ?p) = Some (map ?ss [1..<Suc 2])"
    "json_field (?ss 2) ''state'' = Inr st" "json_field (?ss 2) ''result'' = Inr res"
    "json_field (?ss 2) ''error'' = Inr err"
    "written_after 1 (Some (JStr ''t1'')) demo_jobs (pollJob ''http://api'' slow_status_server ''t1'' ?p)
       = Some (Inr (map (update_entry (Some (JStr ''t1'')) st res err) demo_jobs))"
    by blast
  have v: "st = Some (JStr ''SUCCESS'')" "res = Some (JStr ''s3://out/t1'')" "err = None"
    using r(2,3,4) by (simp_all add: json_field_def)
  have e: "emitted_after 1 (pollJob ''http://api'' slow_status_server ''t1'' ?p)
       = Some [JObj [(''state'', JStr ''STARTED'')],
               JObj [(''state'', JStr ''SUCCESS''), (''result'', JStr ''s3://out/t1'')]]"
    using r(1) by (simp add: upt_rec)
  have l: "map (\<lambda>x. (job_id x, job_status x, job_result x))
        (map (update_entry (Some (JStr ''t1'')) (Some (JStr ''SUCCESS''))
                (Some (JStr ''s3://out/t1'')) None) demo_jobs)
       = [(Some (JStr ''t1''), Some (JStr ''SUCCESS''), Some (JStr ''s3://out/t1'')),
          (Some (JStr ''t2''), Some (JStr ''STARTED''), None)]"
    by (simp add: demo_jobs_def update_entry_def)
  show ?thesis using a[of 0] a[of 1] a[of 2] pd fi e r(5) l unfolding v by simp
qed

section \<open>The job wrappers\<close>

lemma r_json_Responded:
  "r_json (Responded r) = (case body_json r of None \<Rightarrow> Inl JsonError | Some j \<Rightarrow> Inr j)"
  by (simp add: r_json_def)

text \<open>
  Claim C10. \<^verbatim>\<open>createSplit\<close>, \<^verbatim>\<open>createMerge\<close>, \<^verbatim>\<open>createTranscribe\<close>, \<^verbatim>\<open>bulkRename\<close> and
  \<^verbatim>\<open>getJob\<close> return the parsed body of the response whatever its status: for a response
  \<open>r\<close> of any status the result is the parsed body, and the only error is a body that
  does not parse.
\<close>

theorem job_wrappers_ignore_status:
  assumes "\<forall>h q. outcome (srv h q) = Responded r"
  shows "fst (createSplit API srv tus_url n) = (case body_json r of None \<Rightarrow> Inl JsonError | Some j \<Rightarrow> Inr j)
       \<and> fst (createMerge API srv video_tus_url audio_tus_url offset_sec n)
           = (case body_json r of None \<Rightarrow> Inl JsonError | Some j \<Rightarrow> Inr j)
       \<and> fst (createTranscribe API srv tus_url n)
           = (case body_json r of None \<Rightarrow> Inl JsonError | Some j \<Rightarrow> Inr j)
       \<and> fst (bulkRename API srv keys pattern start_index pad dryRun n)
           = (case body_json r of None \<Rightarrow> Inl JsonError | Some j \<Rightarrow> Inr j)
       \<and> fst (getJob API srv task_id n)
           = (case body_json r of None \<Rightarrow> Inl JsonError | Some j \<Rightarrow> Inr j)"
  using assms
  by (simp add: createSplit_def createMerge_def createTranscribe_def bulkRename_def getJob_def
        fetch_def Let_def r_json_Responded)

text \<open>Claim C10 on a backend that answers with status 500 and a JSON error body: the
  wrappers return that body, in which \<^verbatim>\<open>task_id\<close> is undefined.\<close>

theorem job_wrappers_ignore_status_witness:
  "(\<forall>h q. outcome (failing_job_server h q)
            = Responded (respond 500 ''Internal Server Error'' None (Some (JObj [(''detail'', JStr ''boom'')]))))
   \<and> \<not> ok (respond 500 ''Internal Server Error'' None (Some (JObj [(''detail'', JStr ''boom'')])))
   \<and> fst (createSplit ''http://api'' failing_job_server ''http://tus/files/1'' idle)
       = Inr (JObj [(''detail'', JStr ''boom'')])
   \<and> fst (getJob ''http://api'' failing_job_server ''t1'' idle) = Inr (JObj [(''detail'', JStr ''boom'')])
   \<and> json_field (JObj [(''detail'', JStr ''boom'')]) ''task_id'' = Inr None"
proof -
  have h: "\<forall>h q. outcome (failing_job_server h q)
            = Responded (respond 500 ''Internal Server Error'' None (Some (JObj [(''detail'', JStr ''boom'')])))"
    by (simp add: failing_job_server_def after_def)
  from job_wrappers_ignore_status[OF h, of "''http://api''" "''http://tus/files/1''" idle _ _ _ _ _ _ _ _ "''t1''"] h
  show ?thesis
    by (simp add: respond_def ok_def json_field_def)
qed

section \<open>Merge requests\<close>

text \<open>On the feature page a merge request without a video or without an audio file is
  rejected with an alert: no request is made, nothing is handed to Uppy, no job is added
  and no polling is started.\<close>

lemma onGetStarted_merge_rejected:
  assumes "\<not> (str_includes (normalizeName (featureName pg)) ''split''
              \<and> str_includes (normalizeName (featureName pg)) ''music'')"
    and "str_includes (normalizeName (featureName pg)) ''merge''"
    and "fst (pickVideoAudio (uploadedFiles pg)) = None \<or> snd (pickVideoAudio (uploadedFiles pg)) = None"
  shows "page_net (onGetStarted env pg) = page_net pg
       \<and> uppy_uploads (onGetStarted env pg) = uppy_uploads pg
       \<and> jobs (onGetStarted env pg) = jobs pg
       \<and> polls (onGetStarted env pg) = polls pg
       \<and> (uploadedFiles pg \<noteq> [] \<longrightarrow>
            alerts (onGetStarted env pg)
              = alerts pg @ [Message ''Please upload one video file and one audio file.''])"
proof (cases "uploadedFiles pg = []")
  case True
  then show ?thesis by (simp add: onGetStarted_def)
next
  case False
  let ?pg0 = "pg\<lparr>isProcessing := True\<rparr>"
  have d: "dispatch env ?pg0 =
          (None, ?pg0\<lparr>alerts := alerts ?pg0 @ [Message ''Please upload one video file and one audio file.'']\<rparr>)"
    using assms by (cases "pickVideoAudio (uploadedFiles pg)") (auto simp: dispatch_def Let_def split: option.splits)
  show ?thesis using False by (simp add: onGetStarted_def d)
qed

text \<open>In the merge panel the click does nothing while one of the two uploads is not
  recorded.\<close>

lemma onClick_disabled:
  "video st = None \<or> audio st = None \<Longrightarrow> onClick API srv st n = (Inr st, n)"
  by (auto simp: onClick_def split: option.splits)

text \<open>Whatever the upload URL and the file name, the callbacks of the panel record an
  upload without its reference, and a click with two such records submits a merge
  without references.\<close>

lemma upload_success_loses_reference:
  "upload_success (onVideoUploaded st) uploadURL name
     = Inr (st\<lparr>video := Some \<lparr>ref_name = None, ref_tusUrl = None\<rparr>\<rparr>)"
  "upload_success (onAudioUploaded st) uploadURL name
     = Inr (st\<lparr>audio := Some \<lparr>ref_name = None, ref_tusUrl = None\<rparr>\<rparr>)"
  by (simp_all add: upload_success_def onVideoUploaded_def onAudioUploaded_def json_field_def)

lemma onClick_without_references:
  assumes "video st = Some \<lparr>ref_name = a, ref_tusUrl = None\<rparr>"
    and "audio st = Some \<lparr>ref_name = b, ref_tusUrl = None\<rparr>"
  shows "calls (snd (onClick API srv st n))
           = calls n @ [post (API @ ''/merge'') (JsonBody (JObj [(''offset_sec'', JNum 0)]))]"
  using assms
  by (simp add: onClick_def createMerge_def fetch_def calls_def stringify_def Let_def
        split: prod.splits sum.splits)

text \<open>
  Claim C9 fails in the merge panel. \<^verbatim>\<open>TusUploader\<close> calls its callback with the upload
  URL, a string, and the callbacks of \<^verbatim>\<open>MergePanel\<close> read \<^verbatim>\<open>name\<close> and \<^verbatim>\<open>tusUrl\<close> of that
  string. After one successful upload of a video and one of an audio file both
  references are therefore undefined, the button is enabled, and the click sends a merge
  request whose body has neither \<^verbatim>\<open>video_tus_url\<close> nor \<^verbatim>\<open>audio_tus_url\<close>.
\<close>

theorem MergePanel_submits_missing_references:
  "panel_after_uploads =
     Inr \<lparr>video = Some \<lparr>ref_name = None, ref_tusUrl = None\<rparr>,
          audio = Some \<lparr>ref_name = None, ref_tusUrl = None\<rparr>, job = None\<rparr>
   \<and> calls (snd (onClick ''http://api'' task_server
                   \<lparr>video = Some \<lparr>ref_name = None, ref_tusUrl = None\<rparr>,
                    audio = Some \<lparr>ref_name = None, ref_tusUrl = None\<rparr>, job = None\<rparr> idle))
       = [post ''http://api/merge'' (JsonBody (JObj [(''offset_sec'', JNum 0)]))]"
  by (simp add: panel_after_uploads_def upload_success_def onVideoUploaded_def onAudioUploaded_def
        json_field_def onClick_def createMerge_def fetch_def calls_def idle_def stringify_def
        task_server_def after_def respond_def r_json_def Let_def)

end
